theory Spec2Isabelle
  imports Main "HOL-Library.Word" "HOL-Library.Signed_Division"
begin

unbundle bit_operations_syntax

section \<open>Wire types (internal/protocol/types.go)\<close>

text \<open>
  Go's \<open>byte\<close>, \<open>uint16\<close>, \<open>uint32\<close> and \<open>uint64\<close> are words of that width; Go's
  \<open>int\<close> (the configured maximum, slice lengths) is \<open>int\<close> resp. \<open>nat\<close>, and the
  conversion \<open>uint32(n)\<close> keeps the low 32 bits (\<open>word_of_int\<close>, \<open>word_of_nat\<close>).
\<close>

type_synonym byte = "8 word"

abbreviation TypeAuthBegin :: byte where "TypeAuthBegin \<equiv> 0x01"
abbreviation TypeAuthChallenge :: byte where "TypeAuthChallenge \<equiv> 0x02"
abbreviation TypeAuthProof :: byte where "TypeAuthProof \<equiv> 0x03"
abbreviation TypeAuthOK :: byte where "TypeAuthOK \<equiv> 0x04"
abbreviation TypeAuthError :: byte where "TypeAuthError \<equiv> 0x05"
abbreviation TypeMessagePayload :: byte where "TypeMessagePayload \<equiv> 0x10"
abbreviation TypePing :: byte where "TypePing \<equiv> 0xFE"
abbreviation TypePong :: byte where "TypePong \<equiv> 0xFF"

abbreviation PayloadKindRequest :: byte where "PayloadKindRequest \<equiv> 0x01"
abbreviation PayloadKindResponse :: byte where "PayloadKindResponse \<equiv> 0x02"
abbreviation PayloadKindOneway :: byte where "PayloadKindOneway \<equiv> 0x03"

abbreviation PayloadFormatOpaqueBytes :: byte where "PayloadFormatOpaqueBytes \<equiv> 0x00"

abbreviation flagStart :: "16 word" where "flagStart \<equiv> 0x0001"
abbreviation flagEnd :: "16 word" where "flagEnd \<equiv> 0x0002"
abbreviation startEndFlags :: "16 word" where "startEndFlags \<equiv> flagStart OR flagEnd"

abbreviation v1Magic0 :: byte where "v1Magic0 \<equiv> 0x53"
abbreviation v1Magic1 :: byte where "v1Magic1 \<equiv> 0x42"
abbreviation v1Version :: byte where "v1Version \<equiv> 0x01"
abbreviation headerLen :: nat where "headerLen \<equiv> 18"

abbreviation defaultMaxFramePayload :: int where "defaultMaxFramePayload \<equiv> 16777216"

text \<open>One logical tunnel message (struct \<open>Message\<close>).\<close>

record Message =
  Type :: byte
  StreamID :: "64 word"
  Payload :: "byte list"
  Kind :: byte
  Format :: byte
  Data :: "byte list"

text \<open>One wire frame (struct \<open>frame\<close>).\<close>

record frame =
  f_typ :: byte
  f_flags :: "16 word"
  f_streamID :: "64 word"
  f_payload :: "byte list"
  f_payloadLn :: "32 word"

subsection \<open>Errors\<close>

text \<open>
  The sentinel errors of the package, \<open>errors.Join\<close>, \<open>fmt.Errorf\<close> with \<open>%w\<close> (the
  wrapped error and the text after it) and without (the format and its arguments as
  printed), \<open>errors.New\<close>, the errors of the transport, the two context errors, and a
  run-time panic.
\<close>

datatype io_error = EOF | ErrUnexpectedEOF | ErrTimeout | ErrIO string

datatype error =
    ErrProtocol | ErrBadMagic | ErrBadVersion | ErrFrameTooLarge | ErrUnknownType
  | ErrInvalidFlags | ErrFragmentation | ErrEnvelope | ErrInvalidStreamID
  | Join error error
  | Wrapf error string
  | Errorf string "string list"
  | ErrorString string
  | IOError io_error
  | Canceled | DeadlineExceeded
  | RuntimePanic

fun errors_Is :: "error \<Rightarrow> error \<Rightarrow> bool" where
  "errors_Is (Join a b) t = (Join a b = t \<or> errors_Is a t \<or> errors_Is b t)"
| "errors_Is (Wrapf a s) t = (Wrapf a s = t \<or> errors_Is a t)"
| "errors_Is e t = (e = t)"

definition isProtocolErr :: "error \<Rightarrow> bool" where
  "isProtocolErr err =
     (errors_Is err ErrProtocol \<or> errors_Is err ErrBadMagic \<or> errors_Is err ErrBadVersion
      \<or> errors_Is err ErrFrameTooLarge \<or> errors_Is err ErrUnknownType
      \<or> errors_Is err ErrInvalidFlags \<or> errors_Is err ErrFragmentation
      \<or> errors_Is err ErrEnvelope \<or> errors_Is err ErrInvalidStreamID)"

subsection \<open>The transport endpoint\<close>

text \<open>
  The \<open>net.Conn\<close> a connection owns, as far as one call observes it: the bytes the peer
  has sent and that are not consumed yet (\<open>rd_buf\<close>), the error a read reports once they
  are used up (\<open>rd_err\<close>: end of stream, an expired deadline, ...), the bytes written so
  far (\<open>wr_buf\<close>), how many more \<open>Write\<close> calls the transport accepts (\<open>wr_left\<close>,
  \<open>None\<close> for all of them) with the error of a refused one (\<open>wr_err\<close>), and whether
  \<open>Close\<close> has been called.
\<close>

record net_conn =
  rd_buf :: "byte list"
  rd_err :: io_error
  wr_buf :: "byte list"
  wr_left :: "nat option"
  wr_err :: io_error
  closed :: bool

text \<open>
  \<open>io.ReadFull\<close>: exactly \<open>n\<close> bytes, or the error of the reader; an end of stream after
  some but not all bytes is \<open>io.ErrUnexpectedEOF\<close>.
\<close>

definition ReadFull :: "net_conn \<Rightarrow> nat \<Rightarrow> net_conn \<times> (error + byte list)" where
  "ReadFull r n =
     (if n \<le> length (rd_buf r)
      then (r\<lparr>rd_buf := drop n (rd_buf r)\<rparr>, Inr (take n (rd_buf r)))
      else (r\<lparr>rd_buf := []\<rparr>,
            Inl (IOError (if rd_err r = EOF \<and> rd_buf r \<noteq> [] then ErrUnexpectedEOF
                          else rd_err r))))"

definition Write :: "net_conn \<Rightarrow> byte list \<Rightarrow> net_conn \<times> error option" where
  "Write w p =
     (case wr_left w of
        None \<Rightarrow> (w\<lparr>wr_buf := wr_buf w @ p\<rparr>, None)
      | Some 0 \<Rightarrow> (w, Some (IOError (wr_err w)))
      | Some (Suc k) \<Rightarrow> (w\<lparr>wr_buf := wr_buf w @ p, wr_left := Some k\<rparr>, None))"

definition Close :: "net_conn \<Rightarrow> net_conn" where
  "Close r = r\<lparr>closed := True\<rparr>"

subsection \<open>Big-endian integers (encoding/binary)\<close>

definition PutUint16 :: "16 word \<Rightarrow> byte list" where
  "PutUint16 v = [ucast (drop_bit 8 v), ucast v]"

definition Uint16 :: "byte list \<Rightarrow> 16 word" where
  "Uint16 b = (ucast (b ! 1) OR push_bit 8 (ucast (b ! 0)))"

definition PutUint32 :: "32 word \<Rightarrow> byte list" where
  "PutUint32 v = [ucast (drop_bit 24 v), ucast (drop_bit 16 v), ucast (drop_bit 8 v), ucast v]"

definition Uint32 :: "byte list \<Rightarrow> 32 word" where
  "Uint32 b = (ucast (b ! 3) OR push_bit 8 (ucast (b ! 2)) OR push_bit 16 (ucast (b ! 1))
       OR push_bit 24 (ucast (b ! 0)))"

definition PutUint64 :: "64 word \<Rightarrow> byte list" where
  "PutUint64 v = [ucast (drop_bit 56 v), ucast (drop_bit 48 v), ucast (drop_bit 40 v),
     ucast (drop_bit 32 v), ucast (drop_bit 24 v), ucast (drop_bit 16 v),
     ucast (drop_bit 8 v), ucast v]"

definition Uint64 :: "byte list \<Rightarrow> 64 word" where
  "Uint64 b = (ucast (b ! 7) OR push_bit 8 (ucast (b ! 6)) OR push_bit 16 (ucast (b ! 5))
       OR push_bit 24 (ucast (b ! 4)) OR push_bit 32 (ucast (b ! 3))
       OR push_bit 40 (ucast (b ! 2)) OR push_bit 48 (ucast (b ! 1))
       OR push_bit 56 (ucast (b ! 0)))"

section \<open>Frame codec (internal/protocol/types.go)\<close>

definition isKnownType :: "byte \<Rightarrow> bool" where
  "isKnownType t =
     (t = TypeAuthBegin \<or> t = TypeAuthChallenge \<or> t = TypeAuthProof \<or> t = TypeAuthOK
      \<or> t = TypeAuthError \<or> t = TypeMessagePayload \<or> t = TypePing \<or> t = TypePong)"

text \<open>The 18 header bytes \<open>encodeFrameTo\<close> builds.\<close>

definition frame_header :: "byte \<Rightarrow> 16 word \<Rightarrow> 64 word \<Rightarrow> byte list \<Rightarrow> byte list" where
  "frame_header ty flags streamID payload =
     [v1Magic0, v1Magic1, v1Version, ty] @ PutUint16 flags @ PutUint64 streamID
       @ PutUint32 (word_of_nat (length payload))"

definition encodeFrameTo ::
  "net_conn \<Rightarrow> byte \<Rightarrow> 16 word \<Rightarrow> 64 word \<Rightarrow> byte list \<Rightarrow> net_conn \<times> error option" where
  "encodeFrameTo w ty flags streamID payload =
     (case Write w (frame_header ty flags streamID payload) of
        (w1, Some err) \<Rightarrow> (w1, Some err)
      | (w1, None) \<Rightarrow> if payload = [] then (w1, None) else Write w1 payload)"

definition decodeFrameFrom :: "net_conn \<Rightarrow> int \<Rightarrow> net_conn \<times> (error + frame)" where
  "decodeFrameFrom r maxPayload =
     (case ReadFull r headerLen of
        (r1, Inl err) \<Rightarrow> (r1, Inl err)
      | (r1, Inr hdr) \<Rightarrow>
          if hdr ! 0 \<noteq> v1Magic0 \<or> hdr ! 1 \<noteq> v1Magic1
          then (r1, Inl (Join ErrProtocol ErrBadMagic))
          else if hdr ! 2 \<noteq> v1Version
          then (r1, Inl (Join ErrProtocol ErrBadVersion))
          else let ty = hdr ! 3 in
          if \<not> isKnownType ty
          then (r1, Inl (Join ErrProtocol ErrUnknownType))
          else let flags = Uint16 (take 2 (drop 4 hdr)) in
          if flags AND NOT (flagStart OR flagEnd) \<noteq> 0
          then (r1, Inl (Join ErrProtocol ErrInvalidFlags))
          else let streamID = Uint64 (take 8 (drop 6 hdr));
                   payloadLn = Uint32 (take 4 (drop 14 hdr)) in
          if payloadLn > word_of_int maxPayload
          then (r1, Inl (Join ErrProtocol ErrFrameTooLarge))
          else if payloadLn > 0
          then (case ReadFull r1 (unat payloadLn) of
                  (r2, Inl err) \<Rightarrow> (r2, Inl err)
                | (r2, Inr payload) \<Rightarrow>
                    (r2, Inr \<lparr>f_typ = ty, f_flags = flags, f_streamID = streamID,
                              f_payload = payload, f_payloadLn = payloadLn\<rparr>))
          else (r1, Inr \<lparr>f_typ = ty, f_flags = flags, f_streamID = streamID,
                          f_payload = [], f_payloadLn = payloadLn\<rparr>))"

text \<open>
  The header constraints of the protocol in their priority order, each with the error
  it stands for. The length is the declared payload length as a number, compared with
  the configured maximum as a number.
\<close>

definition header_checks :: "byte list \<Rightarrow> int \<Rightarrow> (bool \<times> error) list" where
  "header_checks hdr maxPayload =
     [(take 2 hdr \<noteq> [0x53, 0x42], ErrBadMagic),
      (hdr ! 2 \<noteq> 0x01, ErrBadVersion),
      (hdr ! 3 \<notin> {0x01, 0x02, 0x03, 0x04, 0x05, 0x10, 0xFE, 0xFF}, ErrUnknownType),
      (list_ex (bit (Uint16 (take 2 (drop 4 hdr)))) [2..<16], ErrInvalidFlags),
      (maxPayload < int (unat (Uint32 (take 4 (drop 14 hdr)))), ErrFrameTooLarge)]"

text \<open>The first violated constraint, if any.\<close>

definition first_violation :: "(bool \<times> error) list \<Rightarrow> error option" where
  "first_violation cs = (case filter fst cs of [] \<Rightarrow> None | c # _ \<Rightarrow> Some (snd c))"


section \<open>Connection (internal/protocol/conn.go)\<close>

record Conn =
  nc :: net_conn
  maxFramePayload :: int

definition WithMaxFramePayloadBytes :: "int \<Rightarrow> Conn \<Rightarrow> Conn" where
  "WithMaxFramePayloadBytes n c = (if n > 0 then c\<lparr>maxFramePayload := n\<rparr> else c)"

definition New :: "net_conn \<Rightarrow> (Conn \<Rightarrow> Conn) list \<Rightarrow> Conn" where
  "New n opts = fold (\<lambda>opt c. opt c) opts \<lparr>nc = n, maxFramePayload = defaultMaxFramePayload\<rparr>"

definition Conn_Close :: "Conn \<Rightarrow> Conn" where
  "Conn_Close c = c\<lparr>nc := Close (nc c)\<rparr>"

text \<open>
  A \<open>context.Context\<close> as the connection reads it: \<open>None\<close> while it is not done,
  \<open>Some cause\<close> (what \<open>ctx.Err()\<close> returns) once it is. \<open>ReadNext\<close> polls it only
  right after a failed read and returns then, so one call sees one value. The deadlines
  that \<open>applyReadContext\<close> and \<open>applyWriteContext\<close> install act on the transport only:
  they decide when \<open>rd_err\<close> and \<open>wr_err\<close> are reported.
\<close>

type_synonym ctx = "error option"

definition readFrame :: "ctx \<Rightarrow> Conn \<Rightarrow> Conn \<times> (error + frame)" where
  "readFrame cx c =
     (case decodeFrameFrom (nc c) (maxFramePayload c) of
        (r, Inr fr) \<Rightarrow> (c\<lparr>nc := r\<rparr>, Inr fr)
      | (r, Inl err) \<Rightarrow>
          (case cx of
             Some cause \<Rightarrow> (c\<lparr>nc := r\<rparr>, Inl cause)
           | None \<Rightarrow>
               if isProtocolErr err then (c\<lparr>nc := Close r\<rparr>, Inl err)
               else (c\<lparr>nc := r\<rparr>, Inl err)))"

lemma decodeFrameFrom_consumes:
  "decodeFrameFrom r mx = (r', Inr fr) \<Longrightarrow> length (rd_buf r') < length (rd_buf r)"
  by (auto simp add: decodeFrameFrom_def ReadFull_def Let_def
      split: if_splits prod.splits sum.splits)

lemma readFrame_consumes:
  "readFrame cx c = (c', Inr fr) \<Longrightarrow> length (rd_buf (nc c')) < length (rd_buf (nc c))"
  by (auto simp add: readFrame_def dest: decodeFrameFrom_consumes
      split: prod.splits sum.splits option.splits if_splits)

text \<open>
  The reassembly loop of \<open>ReadNext\<close> (\<open>for !isDone\<close>). The source has it twice, for
  payload messages and for the other types, with the same body: the second copy only
  skips the append of an empty fragment.
\<close>

function reassemble ::
  "ctx \<Rightarrow> byte \<Rightarrow> 64 word \<Rightarrow> Conn \<Rightarrow> byte list \<Rightarrow> bool \<Rightarrow> Conn \<times> (error + byte list)" where
  "reassemble cx ty streamID c buf isDone =
     (if isDone then (c, Inr buf)
      else case readFrame cx c of
          (c1, Inl err) \<Rightarrow> (c1, Inl err)
        | (c1, Inr next) \<Rightarrow>
            if f_typ next \<noteq> ty \<or> f_streamID next \<noteq> streamID
            then (Conn_Close c1, Inl (Join ErrProtocol ErrFragmentation))
            else if f_flags next AND flagStart \<noteq> 0
            then (Conn_Close c1, Inl (Join ErrProtocol ErrFragmentation))
            else if f_flags next \<noteq> 0 \<and> f_flags next \<noteq> flagEnd
            then (Conn_Close c1, Inl (Join ErrProtocol ErrFragmentation))
            else reassemble cx ty streamID c1 (buf @ f_payload next)
                   (f_flags next AND flagEnd \<noteq> 0))"
  by pat_completeness auto
termination
  by (relation "measure (\<lambda>(cx, ty, streamID, c, buf, isDone). length (rd_buf (nc c)))")
     (auto dest: readFrame_consumes [OF sym])

definition isAuthType :: "byte \<Rightarrow> bool" where
  "isAuthType t =
     (t = TypeAuthBegin \<or> t = TypeAuthChallenge \<or> t = TypeAuthProof \<or> t = TypeAuthOK
      \<or> t = TypeAuthError)"

definition ReadNext :: "ctx \<Rightarrow> Conn \<Rightarrow> Conn \<times> (error + Message)" where
  "ReadNext cx c =
     (case readFrame cx c of
        (c1, Inl err) \<Rightarrow> (c1, Inl err)
      | (c1, Inr fr) \<Rightarrow>
          if f_flags fr AND flagStart = 0
          then (Conn_Close c1, Inl (Join ErrProtocol ErrFragmentation))
          else let ty = f_typ fr; streamID = f_streamID fr in
          if ty = TypePing \<or> ty = TypePong
          then (if streamID \<noteq> 0 \<or> f_payload fr \<noteq> [] \<or> f_flags fr \<noteq> startEndFlags
                then (Conn_Close c1,
                      Inl (Wrapf ErrProtocol
                            ''ping/pong must have stream_id=0, empty payload, START|END''))
                else (c1, Inr \<lparr>Type = ty, StreamID = 0, Payload = [], Kind = 0, Format = 0,
                                Data = []\<rparr>))
          else if isAuthType ty \<and> streamID \<noteq> 0
          then (Conn_Close c1, Inl (Join ErrProtocol ErrInvalidStreamID))
          else if ty = TypeMessagePayload \<and> streamID = 0
          then (Conn_Close c1, Inl (Join ErrProtocol ErrInvalidStreamID))
          else let isDone = (f_flags fr AND flagEnd \<noteq> 0) in
          if ty = TypeMessagePayload
          then (if length (f_payload fr) < 4
                then (Conn_Close c1, Inl (Join ErrProtocol ErrEnvelope))
                else let kind = f_payload fr ! 0;
                         format = f_payload fr ! 1;
                         reserved = (push_bit 8 (ucast (f_payload fr ! 2)) OR
                                     ucast (f_payload fr ! 3) :: 16 word) in
                if reserved \<noteq> 0
                then (Conn_Close c1, Inl (Join ErrProtocol ErrEnvelope))
                else if format \<noteq> PayloadFormatOpaqueBytes
                then (Conn_Close c1, Inl (Join ErrProtocol ErrEnvelope))
                else if kind \<noteq> PayloadKindRequest \<and> kind \<noteq> PayloadKindResponse
                        \<and> kind \<noteq> PayloadKindOneway
                then (Conn_Close c1, Inl (Join ErrProtocol ErrEnvelope))
                else (case reassemble cx ty streamID c1 (drop 4 (f_payload fr)) isDone of
                        (c2, Inl err) \<Rightarrow> (c2, Inl err)
                      | (c2, Inr data) \<Rightarrow>
                          (c2, Inr \<lparr>Type = TypeMessagePayload, StreamID = streamID,
                                    Payload = [], Kind = kind, Format = format,
                                    Data = data\<rparr>)))
          else (case reassemble cx ty streamID c1 (f_payload fr) isDone of
                  (c2, Inl err) \<Rightarrow> (c2, Inl err)
                | (c2, Inr payload) \<Rightarrow>
                    (c2, Inr \<lparr>Type = ty, StreamID = streamID, Payload = payload, Kind = 0,
                              Format = 0, Data = []\<rparr>)))"

subsection \<open>Sending\<close>

text \<open>
  The chunking loop of \<open>sendWithFragmentation\<close> (\<open>for len(remaining) > 0\<close>); the loop
  of \<open>Send\<close> for payload messages is the same loop entered with \<open>first = false\<close>. With a
  maximum of 0 the source never leaves the loop while the transport accepts writes, so
  the result is an option and \<open>None\<close> stands for a call that does not return; with a
  negative maximum the slice expression \<open>chunk[:c.maxFramePayload]\<close> panics.
\<close>

partial_function (option) frag_loop ::
  "int \<Rightarrow> byte \<Rightarrow> 64 word \<Rightarrow> byte list \<Rightarrow> bool \<Rightarrow> net_conn \<Rightarrow> (net_conn \<times> error option) option"
  where
  "frag_loop mx ty streamID remaining first w =
     (if remaining = [] then Some (w, None)
      else if int (length remaining) > mx \<and> mx < 0 then Some (w, Some RuntimePanic)
      else let chunk = (if int (length remaining) > mx then take (nat mx) remaining
                        else remaining);
               remaining' = drop (length chunk) remaining;
               flags = (if first then flagStart else 0) OR
                       (if remaining' = [] then flagEnd else 0)
           in case encodeFrameTo w ty flags streamID chunk of
                (w1, Some err) \<Rightarrow> Some (w1, Some err)
              | (w1, None) \<Rightarrow> frag_loop mx ty streamID remaining' False w1)"

declare frag_loop.simps [code]

definition sendWithFragmentation ::
  "Conn \<Rightarrow> byte \<Rightarrow> 64 word \<Rightarrow> byte list \<Rightarrow> (Conn \<times> error option) option" where
  "sendWithFragmentation c ty streamID payload =
     (if int (length payload) \<le> maxFramePayload c
      then (case encodeFrameTo (nc c) ty startEndFlags streamID payload of
              (w, r) \<Rightarrow> Some (c\<lparr>nc := w\<rparr>, r))
      else (case frag_loop (maxFramePayload c) ty streamID payload True (nc c) of
              None \<Rightarrow> None
            | Some (w, r) \<Rightarrow> Some (c\<lparr>nc := w\<rparr>, r)))"

text \<open>Decimal digits of a number, as \<open>%d\<close> and \<open>strconv.FormatInt(_, 10)\<close> print it.\<close>

fun digits :: "nat \<Rightarrow> string" where
  "digits n = (if n < 10 then [char_of (48 + n)] else digits (n div 10) @ [char_of (48 + n mod 10)])"

definition FormatInt :: "int \<Rightarrow> string" where
  "FormatInt i = (if i < 0 then CHR ''-'' # digits (nat (- i)) else digits (nat i))"

definition Send :: "ctx \<Rightarrow> Message \<Rightarrow> Conn \<Rightarrow> (Conn \<times> error option) option" where
  "Send cx msg c =
     (if Type msg = TypePing \<or> Type msg = TypePong
      then (if StreamID msg \<noteq> 0 then Some (c, Some (Join ErrProtocol ErrInvalidStreamID))
            else if Payload msg \<noteq> [] \<or> Data msg \<noteq> []
            then Some (c, Some (Wrapf ErrProtocol ''ping/pong payload must be empty''))
            else (case encodeFrameTo (nc c) (Type msg) startEndFlags 0 [] of
                    (w, r) \<Rightarrow> Some (c\<lparr>nc := w\<rparr>, r)))
      else if isAuthType (Type msg)
      then (if StreamID msg \<noteq> 0 then Some (c, Some (Join ErrProtocol ErrInvalidStreamID))
            else sendWithFragmentation c (Type msg) 0 (Payload msg))
      else if Type msg = TypeMessagePayload
      then (if StreamID msg = 0 then Some (c, Some (Join ErrProtocol ErrInvalidStreamID))
            else let format = (if Format msg = 0 then PayloadFormatOpaqueBytes
                               else Format msg) in
            if format \<noteq> PayloadFormatOpaqueBytes
            then Some (c, Some (Wrapf ErrProtocol
                                 (''unsupported payload format '' @ digits (unat format))))
            else if Kind msg \<noteq> PayloadKindRequest \<and> Kind msg \<noteq> PayloadKindResponse
                    \<and> Kind msg \<noteq> PayloadKindOneway
            then Some (c, Some (Wrapf ErrProtocol
                                 (''unsupported payload kind '' @ digits (unat (Kind msg)))))
            else let envelope = [Kind msg, format, 0x00, 0x00] in
            if int (length envelope) > maxFramePayload c
            then Some (c, Some (Wrapf ErrProtocol ''maxFramePayload too small for envelope''))
            else let firstDataCap = maxFramePayload c - int (length envelope);
                     firstData = (if int (length (Data msg)) > firstDataCap
                                  then take (nat firstDataCap) (Data msg) else Data msg);
                     firstPayload = envelope @ firstData;
                     remaining = drop (length firstData) (Data msg) in
            if remaining = []
            then (case encodeFrameTo (nc c) TypeMessagePayload startEndFlags (StreamID msg)
                         firstPayload of
                    (w, r) \<Rightarrow> Some (c\<lparr>nc := w\<rparr>, r))
            else (case encodeFrameTo (nc c) TypeMessagePayload flagStart (StreamID msg)
                         firstPayload of
                    (w, Some err) \<Rightarrow> Some (c\<lparr>nc := w\<rparr>, Some err)
                  | (w, None) \<Rightarrow>
                      (case frag_loop (maxFramePayload c) TypeMessagePayload (StreamID msg)
                              remaining False w of
                         None \<Rightarrow> None
                       | Some (w', r) \<Rightarrow> Some (c\<lparr>nc := w'\<rparr>, r))))
      else Some (c, Some (Join ErrProtocol ErrUnknownType)))"

subsection \<open>Notions used to state the properties\<close>

text \<open>A frame as the bytes on the wire: the header, then the payload.\<close>

definition wire_frame :: "byte \<Rightarrow> 64 word \<Rightarrow> 16 word \<times> byte list \<Rightarrow> byte list" where
  "wire_frame ty streamID f = frame_header ty (fst f) streamID (snd f) @ snd f"

text \<open>A byte sequence cut into consecutive pieces of \<open>n\<close> bytes, the last one shorter or equal.\<close>

function chunks :: "nat \<Rightarrow> byte list \<Rightarrow> byte list list" where
  "chunks n p = (if n = 0 \<or> length p \<le> n then [p] else take n p # chunks n (drop n p))"
  by pat_completeness auto
termination
  by (relation "measure (\<lambda>(n, p). length p)") auto

text \<open>
  The flag discipline for a message of \<open>k\<close> frames: one frame carries \<open>START|END\<close>;
  otherwise the first carries \<open>START\<close>, the last \<open>END\<close>, the ones between nothing.
  \<open>cont_flags\<close> are the flags of \<open>k\<close> continuation frames.
\<close>

definition cont_flags :: "nat \<Rightarrow> 16 word list" where
  "cont_flags k = replicate (k - 1) 0 @ [flagEnd]"

definition frame_flags :: "nat \<Rightarrow> 16 word list" where
  "frame_flags k = (if k \<le> 1 then [startEndFlags] else flagStart # cont_flags (k - 1))"

text \<open>The logical payload of a message: for a payload message the envelope and the data.\<close>

definition message_bytes :: "Message \<Rightarrow> byte list" where
  "message_bytes m =
     (if Type m = TypeMessagePayload then [Kind m, Format m, 0x00, 0x00] @ Data m
      else if isAuthType (Type m) then Payload m
      else [])"

text \<open>The messages with valid fields.\<close>

definition valid_message :: "Message \<Rightarrow> bool" where
  "valid_message m =
     (if Type m = TypePing \<or> Type m = TypePong
      then StreamID m = 0 \<and> Payload m = [] \<and> Data m = []
      else if isAuthType (Type m) then StreamID m = 0
      else Type m = TypeMessagePayload \<and> StreamID m \<noteq> 0
           \<and> Kind m \<in> {PayloadKindRequest, PayloadKindResponse, PayloadKindOneway}
           \<and> Format m = PayloadFormatOpaqueBytes)"

text \<open>
  The convention of the \<open>Message\<close> struct: a payload message leaves \<open>Payload\<close> empty,
  every other message leaves \<open>Kind\<close>, \<open>Format\<close> and \<open>Data\<close> at their zero values.
\<close>

definition unused_fields_zero :: "Message \<Rightarrow> bool" where
  "unused_fields_zero m =
     (if Type m = TypeMessagePayload then Payload m = []
      else Kind m = 0 \<and> Format m = 0 \<and> Data m = [])"

text \<open>A healthy transport with nothing read or written yet, and a connection on it.\<close>

definition idle_transport :: net_conn where
  "idle_transport =
     \<lparr>rd_buf = [], rd_err = EOF, wr_buf = [], wr_left = None, wr_err = EOF, closed = False\<rparr>"

definition conn_with :: "byte list \<Rightarrow> int \<Rightarrow> Conn" where
  "conn_with received mx = \<lparr>nc = idle_transport\<lparr>rd_buf := received\<rparr>, maxFramePayload = mx\<rparr>"

text \<open>The first \<open>n\<close> frames that successive calls of \<open>readFrame\<close> return.\<close>

fun read_frames :: "ctx \<Rightarrow> Conn \<Rightarrow> nat \<Rightarrow> Conn \<times> (error + frame list)" where
  "read_frames cx c 0 = (c, Inr [])"
| "read_frames cx c (Suc n) =
     (case readFrame cx c of
        (c1, Inl e) \<Rightarrow> (c1, Inl e)
      | (c1, Inr fr) \<Rightarrow>
          (case read_frames cx c1 n of
             (c2, Inl e) \<Rightarrow> (c2, Inl e)
           | (c2, Inr frs) \<Rightarrow> (c2, Inr (fr # frs))))"

text \<open>
  An opening frame that \<open>ReadNext\<close> accepts and that does not end its message; a
  continuation frame that is accepted and does not end the message either; and a
  continuation frame that breaks one of the rules of reassembly.
\<close>

definition opens_reassembly :: "frame \<Rightarrow> bool" where
  "opens_reassembly fr =
     (f_flags fr AND flagStart \<noteq> 0 \<and> f_flags fr AND flagEnd = 0 \<and>
      (if f_typ fr = TypeMessagePayload
       then f_streamID fr \<noteq> 0 \<and> 4 \<le> length (f_payload fr)
            \<and> f_payload fr ! 1 = PayloadFormatOpaqueBytes
            \<and> f_payload fr ! 2 = 0 \<and> f_payload fr ! 3 = 0
            \<and> f_payload fr ! 0 \<in> {PayloadKindRequest, PayloadKindResponse, PayloadKindOneway}
       else isAuthType (f_typ fr) \<and> f_streamID fr = 0))"

definition continues :: "frame \<Rightarrow> frame \<Rightarrow> bool" where
  "continues opener fr =
     (f_typ fr = f_typ opener \<and> f_streamID fr = f_streamID opener \<and> f_flags fr = 0)"

definition violates_continuation :: "frame \<Rightarrow> frame \<Rightarrow> bool" where
  "violates_continuation opener fr =
     (f_typ fr \<noteq> f_typ opener \<or> f_streamID fr \<noteq> f_streamID opener
      \<or> f_flags fr AND flagStart \<noteq> 0
      \<or> (f_flags fr \<noteq> 0 \<and> f_flags fr \<noteq> flagEnd))"

text \<open>
  The errors with which a frame read fails: an error of the transport, or one of the five
  header errors of \<open>decodeFrameFrom\<close>.
\<close>

fun read_failure :: "error \<Rightarrow> bool" where
  "read_failure (IOError e) = True"
| "read_failure (Join ErrProtocol x) =
     (x = ErrBadMagic \<or> x = ErrBadVersion \<or> x = ErrUnknownType \<or> x = ErrInvalidFlags
      \<or> x = ErrFrameTooLarge)"
| "read_failure e = False"

section \<open>Identity and handshake (package auth)\<close>

subsection \<open>Key and identity\<close>

text \<open>
  \<open>hex.EncodeToString\<close> of the standard library, with its table of lower-case digits.
  SHA-256 is a parameter of the model.
\<close>

definition hextable :: string where
  "hextable = ''0123456789abcdef''"

fun hex_EncodeToString :: "byte list \<Rightarrow> string" where
  "hex_EncodeToString [] = []"
| "hex_EncodeToString (v # vs) =
     hextable ! unat (drop_bit 4 v) # hextable ! unat (v AND 0x0f) # hex_EncodeToString vs"

abbreviation ed25519_PublicKeySize :: nat where "ed25519_PublicKeySize \<equiv> 32"
abbreviation ed25519_SignatureSize :: nat where "ed25519_SignatureSize \<equiv> 64"

definition agentIDFromPublicKey :: "(byte list \<Rightarrow> byte list) \<Rightarrow> byte list \<Rightarrow> error + string" where
  "agentIDFromPublicKey sha256_Sum256 pub =
     (if length pub \<noteq> ed25519_PublicKeySize
      then Inl (Errorf ''invalid public key length %d'' [digits (length pub)])
      else Inr (hex_EncodeToString (sha256_Sum256 pub)))"

text \<open>The lower-case hexadecimal digit of a number below 16, and the two digits of a byte.\<close>

definition lower_hex_digit :: "nat \<Rightarrow> char" where
  "lower_hex_digit n = (if n < 10 then char_of (48 + n) else char_of (87 + n))"

definition lower_hex :: "byte list \<Rightarrow> string" where
  "lower_hex bs =
     concat (map (\<lambda>v. [lower_hex_digit (unat v div 16), lower_hex_digit (unat v mod 16)]) bs)"

definition stringToSignV1 :: "string \<Rightarrow> string \<Rightarrow> string \<Rightarrow> 64 word \<Rightarrow> string" where
  "stringToSignV1 agentID challengeID nonce issuedAtMS =
     ''switchboard-auth-v1'' @ [CHR 0x0A] @
     ''agent_id='' @ agentID @ [CHR 0x0A] @
     ''challenge_id='' @ challengeID @ [CHR 0x0A] @
     ''nonce='' @ nonce @ [CHR 0x0A] @
     ''issued_at_ms='' @ FormatInt (sint issuedAtMS) @ [CHR 0x0A]"

subsection \<open>Handshake messages\<close>

abbreviation authVersion :: int where "authVersion \<equiv> 1"

record authBegin =
  begin_Type :: string
  begin_V :: int
  begin_AgentID :: string
  begin_ClientTimeMS :: "64 word"

record authChallenge =
  ch_Type :: string
  ch_V :: int
  ch_ChallengeID :: string
  ch_Nonce :: string
  ch_IssuedAtMS :: "64 word"
  ch_ExpiresAtMS :: "64 word"

record authProof =
  proof_Type :: string
  proof_V :: int
  proof_AgentID :: string
  proof_ChallengeID :: string
  proof_Nonce :: string
  proof_IssuedAtMS :: "64 word"
  proof_Signature :: string

record authOK =
  ok_Type :: string
  ok_V :: int
  ok_AgentID :: string
  ok_AuthenticatedAtMS :: "64 word"

record authError =
  ae_Type :: string
  ae_V :: int
  ae_Code :: string
  ae_Message :: string

datatype auth_msg =
    AuthBegin authBegin | AuthChallenge authChallenge | AuthProof authProof
  | AuthOK authOK | AuthError authError

text \<open>
  What the handshake takes from outside the repository: the JSON codec, the random
  source, base64, Ed25519, SHA-256, \<open>strings.TrimSpace\<close>, the clock (its successive
  readings in milliseconds), the package variable \<open>challengeTTL\<close> (a duration in
  nanoseconds), and the state of the read timeout context at the moment a read fails
  (the handshake returns after the first failed read).
\<close>

record auth_env =
  json_Marshal :: "auth_msg \<Rightarrow> error + byte list"
  json_begin :: "byte list \<Rightarrow> error + authBegin"
  json_proof :: "byte list \<Rightarrow> error + authProof"
  json_header :: "byte list \<Rightarrow> error + string \<times> int"
  TrimSpace :: "string \<Rightarrow> string"
  sha256_Sum256 :: "byte list \<Rightarrow> byte list"
  rand_Read :: "nat \<Rightarrow> error + byte list"
  b64Encode :: "byte list \<Rightarrow> string"
  b64Decode :: "string \<Rightarrow> error + byte list"
  ed25519_Verify :: "byte list \<Rightarrow> byte list \<Rightarrow> byte list \<Rightarrow> bool"
  clock :: "nat \<Rightarrow> 64 word"
  challengeTTL :: "64 word"
  read_ctx :: ctx

text \<open>The connection of the handshake and the number of clock readings taken so far.\<close>

record hs =
  conn :: Conn
  ticks :: nat

definition nowMS :: "auth_env \<Rightarrow> hs \<Rightarrow> 64 word \<times> hs" where
  "nowMS env s = (clock env (ticks s), s\<lparr>ticks := Suc (ticks s)\<rparr>)"

text \<open>\<open>int64(challengeTTL / time.Millisecond)\<close>: Go's integer division truncates.\<close>

definition challenge_ttl_ms :: "auth_env \<Rightarrow> 64 word" where
  "challenge_ttl_ms env = word_of_int (sint (challengeTTL env) sdiv 1000000)"

definition mustMarshalJSON :: "auth_env \<Rightarrow> auth_msg \<Rightarrow> error + byte list" where
  "mustMarshalJSON env v =
     (case json_Marshal env v of
        Inl err \<Rightarrow> Inl err
      | Inr b \<Rightarrow> if b = [] then Inl (ErrorString ''json payload empty'') else Inr b)"

definition unmarshalAndValidate ::
  "auth_env \<Rightarrow> (byte list \<Rightarrow> error + 'a) \<Rightarrow> byte list \<Rightarrow> string \<Rightarrow> error + 'a" where
  "unmarshalAndValidate env unmarshal payload wantType =
     (if payload = [] then Inl (ErrorString ''empty payload'')
      else case unmarshal payload of
          Inl err \<Rightarrow> Inl err
        | Inr zero \<Rightarrow>
            (case json_header env payload of
               Inl err \<Rightarrow> Inl err
             | Inr (header_Type, header_V) \<Rightarrow>
                 if header_Type \<noteq> wantType
                 then Inl (Errorf ''unexpected auth message type %q (want %q)''
                            [header_Type, wantType])
                 else if header_V \<noteq> authVersion
                 then Inl (Errorf ''unsupported auth version %d (want %d)''
                            [FormatInt header_V, FormatInt authVersion])
                 else Inr zero))"

definition randomBytes :: "auth_env \<Rightarrow> int \<Rightarrow> error + byte list" where
  "randomBytes env n =
     (if n \<le> 0 then Inl (ErrorString ''randomBytes: n must be > 0'')
      else rand_Read env (nat n))"

definition sendAuth :: "Conn \<Rightarrow> byte \<Rightarrow> byte list \<Rightarrow> (Conn \<times> error option) option" where
  "sendAuth c ty payload =
     Send None \<lparr>Type = ty, StreamID = 0, Payload = payload, Kind = 0, Format = 0, Data = []\<rparr> c"

definition readNextWithTimeout :: "auth_env \<Rightarrow> Conn \<Rightarrow> Conn \<times> (error + Message)" where
  "readNextWithTimeout env c = ReadNext (read_ctx env) c"

definition readAuth :: "auth_env \<Rightarrow> Conn \<Rightarrow> byte \<Rightarrow> Conn \<times> (error + Message)" where
  "readAuth env c wantType =
     (case readNextWithTimeout env c of
        (c1, Inl err) \<Rightarrow> (c1, Inl err)
      | (c1, Inr msg) \<Rightarrow>
          if Type msg \<noteq> wantType
          then (Conn_Close c1,
                Inl (Errorf ''unexpected frame type %d (want %d)''
                      [digits (unat (Type msg)), digits (unat wantType)]))
          else (c1, Inr msg))"

definition failAuth :: "auth_env \<Rightarrow> Conn \<Rightarrow> string \<Rightarrow> string \<Rightarrow> (Conn \<times> error) option" where
  "failAuth env c code message =
     (let ae = \<lparr>ae_Type = ''auth_error'', ae_V = authVersion, ae_Code = code,
                ae_Message = message\<rparr>;
          payload = (case mustMarshalJSON env (AuthError ae) of Inl err \<Rightarrow> [] | Inr b \<Rightarrow> b)
      in case sendAuth c TypeAuthError payload of
           None \<Rightarrow> None
         | Some (c1, r) \<Rightarrow>
             Some (Conn_Close c1,
                   if message \<noteq> [] then Errorf ''auth failed: %s (%s)'' [code, message]
                   else Errorf ''auth failed: %s'' [code]))"

text \<open>\<open>return failAuth(connection, code, message)\<close> inside the handshake.\<close>

definition return_failAuth ::
  "auth_env \<Rightarrow> hs \<Rightarrow> string \<Rightarrow> string \<Rightarrow> (hs \<times> error) option" where
  "return_failAuth env s code message =
     (case failAuth env (conn s) code message of
        None \<Rightarrow> None
      | Some (c1, err) \<Rightarrow> Some (s\<lparr>conn := c1\<rparr>, err))"

definition bytes_of_string :: "string \<Rightarrow> byte list" where
  "bytes_of_string str = map (\<lambda>ch. word_of_nat (of_char ch)) str"

text \<open>
  \<open>WaitForAgentAuthentication\<close> in three parts: up to the sending of the challenge
  (the result is the error of an early return, or the claimed agent id, its public key
  and the challenge), the checks of a parsed \<open>auth_proof\<close>, and the whole function.
\<close>

definition issue_challenge ::
  "auth_env \<Rightarrow> hs \<Rightarrow> (string \<Rightarrow> byte list option)
   \<Rightarrow> (hs \<times> (error + string \<times> byte list \<times> authChallenge)) option" where
  "issue_challenge env s lookupPublicKey =
     (case readAuth env (conn s) TypeAuthBegin of
        (c1, Inl err) \<Rightarrow> Some (s\<lparr>conn := c1\<rparr>, Inl err)
      | (c1, Inr beginMsg) \<Rightarrow>
     (case unmarshalAndValidate env (json_begin env) (Payload beginMsg) ''auth_begin'' of
        Inl err \<Rightarrow> Some (s\<lparr>conn := Conn_Close c1\<rparr>, Inl err)
      | Inr bg \<Rightarrow>
     (let agentID = begin_AgentID bg; s0 = s\<lparr>conn := c1\<rparr> in
      if TrimSpace env agentID = []
      then map_option (map_prod id Inl) (return_failAuth env s0 ''protocol_error'' ''missing agent_id'')
      else case lookupPublicKey agentID of
        None \<Rightarrow> map_option (map_prod id Inl) (return_failAuth env s0 ''unknown_agent'' [])
      | Some pub \<Rightarrow>
     (case agentIDFromPublicKey (sha256_Sum256 env) pub of
        Inl err \<Rightarrow> map_option (map_prod id Inl)
                    (return_failAuth env s0 ''internal_error'' ''invalid configured public key'')
      | Inr expectedAgentID \<Rightarrow>
      if agentID \<noteq> expectedAgentID
      then map_option (map_prod id Inl) (return_failAuth env s0 ''unknown_agent'' [])
      else
     (case nowMS env s0 of (issuedAt, s1) \<Rightarrow>
      let expiresAt = issuedAt + challenge_ttl_ms env in
      case randomBytes env 32 of
        Inl err \<Rightarrow> map_option (map_prod id Inl)
                    (return_failAuth env s1 ''internal_error'' ''nonce generation failed'')
      | Inr nonceBytes \<Rightarrow>
     (case randomBytes env 24 of
        Inl err \<Rightarrow> map_option (map_prod id Inl)
                    (return_failAuth env s1 ''internal_error'' ''challenge_id generation failed'')
      | Inr challengeIDBytes \<Rightarrow>
     (let ch = \<lparr>ch_Type = ''auth_challenge'', ch_V = authVersion,
                ch_ChallengeID = b64Encode env challengeIDBytes,
                ch_Nonce = b64Encode env nonceBytes,
                ch_IssuedAtMS = issuedAt, ch_ExpiresAtMS = expiresAt\<rparr> in
      case mustMarshalJSON env (AuthChallenge ch) of
        Inl err \<Rightarrow> Some (s1, Inl err)
      | Inr chPayload \<Rightarrow>
     (case sendAuth (conn s1) TypeAuthChallenge chPayload of
        None \<Rightarrow> None
      | Some (c2, Some err) \<Rightarrow> Some (s1\<lparr>conn := Conn_Close c2\<rparr>, Inl err)
      | Some (c2, None) \<Rightarrow> Some (s1\<lparr>conn := c2\<rparr>, Inr (agentID, pub, ch))))))))))"

definition check_proof ::
  "auth_env \<Rightarrow> hs \<Rightarrow> string \<Rightarrow> byte list \<Rightarrow> authChallenge \<Rightarrow> authProof
   \<Rightarrow> (hs \<times> error option) option" where
  "check_proof env s agentID pub ch prf =
     (if proof_AgentID prf \<noteq> agentID
      then map_option (map_prod id Some)
             (return_failAuth env s ''protocol_error'' ''agent_id mismatch'')
      else if proof_ChallengeID prf \<noteq> ch_ChallengeID ch \<or> proof_Nonce prf \<noteq> ch_Nonce ch
              \<or> proof_IssuedAtMS prf \<noteq> ch_IssuedAtMS ch
      then map_option (map_prod id Some) (return_failAuth env s ''replayed_challenge'' [])
      else
     (case nowMS env s of (now, s1) \<Rightarrow>
      if sint now > sint (ch_ExpiresAtMS ch)
      then map_option (map_prod id Some) (return_failAuth env s1 ''expired_challenge'' [])
      else
     (case b64Decode env (proof_Signature prf) of
        Inl err \<Rightarrow> map_option (map_prod id Some) (return_failAuth env s1 ''bad_signature'' [])
      | Inr sigBytes \<Rightarrow>
      if length sigBytes \<noteq> ed25519_SignatureSize
      then map_option (map_prod id Some) (return_failAuth env s1 ''bad_signature'' [])
      else let toVerify = stringToSignV1 agentID (proof_ChallengeID prf) (proof_Nonce prf)
                            (proof_IssuedAtMS prf) in
      if \<not> ed25519_Verify env pub (bytes_of_string toVerify) sigBytes
      then map_option (map_prod id Some) (return_failAuth env s1 ''bad_signature'' [])
      else
     (case nowMS env s1 of (authenticatedAt, s2) \<Rightarrow>
      let okMsg = \<lparr>ok_Type = ''auth_ok'', ok_V = authVersion, ok_AgentID = agentID,
                   ok_AuthenticatedAtMS = authenticatedAt\<rparr> in
      case mustMarshalJSON env (AuthOK okMsg) of
        Inl err \<Rightarrow> Some (s2\<lparr>conn := Conn_Close (conn s2)\<rparr>, Some err)
      | Inr okPayload \<Rightarrow>
     (case sendAuth (conn s2) TypeAuthOK okPayload of
        None \<Rightarrow> None
      | Some (c3, Some err) \<Rightarrow> Some (s2\<lparr>conn := Conn_Close c3\<rparr>, Some err)
      | Some (c3, None) \<Rightarrow> Some (s2\<lparr>conn := c3\<rparr>, None))))))"

definition WaitForAgentAuthentication ::
  "auth_env \<Rightarrow> hs \<Rightarrow> (string \<Rightarrow> byte list option) \<Rightarrow> (hs \<times> error option) option" where
  "WaitForAgentAuthentication env s lookupPublicKey =
     (case issue_challenge env s lookupPublicKey of
        None \<Rightarrow> None
      | Some (s1, Inl err) \<Rightarrow> Some (s1, Some err)
      | Some (s1, Inr (agentID, pub, ch)) \<Rightarrow>
     (case readAuth env (conn s1) TypeAuthProof of
        (c2, Inl err) \<Rightarrow> Some (s1\<lparr>conn := Conn_Close c2\<rparr>, Some err)
      | (c2, Inr proofMsg) \<Rightarrow>
     (case unmarshalAndValidate env (json_proof env) (Payload proofMsg) ''auth_proof'' of
        Inl err \<Rightarrow> map_option (map_prod id Some)
                    (return_failAuth env (s1\<lparr>conn := c2\<rparr>) ''protocol_error''
                       ''invalid auth_proof'')
      | Inr prf \<Rightarrow> check_proof env (s1\<lparr>conn := c2\<rparr>) agentID pub ch prf)))"

text \<open>
  The payload of the \<open>auth_error\<close> message that \<open>failAuth\<close> builds, and what it means
  that the handshake, in state \<open>s\<close>, fails with a code: the \<open>auth_error\<close> with that code
  is sent best-effort (the result of the send is dropped), the connection is closed, and
  the error names the code.
\<close>

definition auth_error_payload :: "auth_env \<Rightarrow> string \<Rightarrow> string \<Rightarrow> byte list" where
  "auth_error_payload env code message =
     (case mustMarshalJSON env
             (AuthError \<lparr>ae_Type = ''auth_error'', ae_V = authVersion, ae_Code = code,
                         ae_Message = message\<rparr>) of
        Inl err \<Rightarrow> []
      | Inr b \<Rightarrow> b)"

definition handshake_fails ::
  "auth_env \<Rightarrow> hs \<Rightarrow> string \<Rightarrow> string \<Rightarrow> (hs \<times> error option) option \<Rightarrow> bool" where
  "handshake_fails env s code message res =
     (case sendAuth (conn s) TypeAuthError (auth_error_payload env code message) of
        None \<Rightarrow> False
      | Some (c3, r) \<Rightarrow>
          res = Some (s\<lparr>conn := Conn_Close c3\<rparr>,
                      Some (if message \<noteq> [] then Errorf ''auth failed: %s (%s)'' [code, message]
                            else Errorf ''auth failed: %s'' [code])))"

text \<open>
  A small environment for concrete runs of the server side: the claimed agent is
  \<open>ab\<close>, registered with a key whose digest is the byte \<open>0xAB\<close>; the challenge id is
  \<open>cid\<close>, the nonce \<open>nonce\<close>, the time to live 30 seconds; an \<open>auth_error\<close> is
  marshalled as its code. The parsed \<open>auth_proof\<close> and the clock are parameters.
\<close>

definition example_env :: "authProof \<Rightarrow> (nat \<Rightarrow> 64 word) \<Rightarrow> auth_env" where
  "example_env prf clk =
     \<lparr>json_Marshal = (\<lambda>m. case m of AuthError ae \<Rightarrow> Inr (bytes_of_string (ae_Code ae))
                              | AuthChallenge ch \<Rightarrow> Inr [0x63]
                              | AuthBegin x \<Rightarrow> Inr [0x62]
                              | AuthProof x \<Rightarrow> Inr [0x70]
                              | AuthOK x \<Rightarrow> Inr [0x6F]),
      json_begin = (\<lambda>b. Inr \<lparr>begin_Type = ''auth_begin'', begin_V = 1, begin_AgentID = ''ab'',
                              begin_ClientTimeMS = 0\<rparr>),
      json_proof = (\<lambda>b. Inr prf),
      json_header = (\<lambda>b. Inr (if b = [1] then ''auth_begin'' else ''auth_proof'', 1)),
      TrimSpace = (\<lambda>x. x),
      sha256_Sum256 = (\<lambda>k. [0xAB]),
      rand_Read = (\<lambda>n. Inr (replicate n 0)),
      b64Encode = (\<lambda>b. if length b = 24 then ''cid'' else ''nonce''),
      b64Decode = (\<lambda>x. Inr (replicate 64 0)),
      ed25519_Verify = (\<lambda>pub msg sg. True),
      clock = clk,
      challengeTTL = 30000000000,
      read_ctx = None\<rparr>"

definition example_lookup :: "string \<Rightarrow> byte list option" where
  "example_lookup agentID = Some (replicate 32 0)"

text \<open>
  The server has received an \<open>auth_begin\<close> frame with payload \<open>01\<close> and an \<open>auth_proof\<close>
  frame with payload \<open>02\<close>.
\<close>

definition example_hs :: hs where
  "example_hs =
     \<lparr>conn = conn_with
        [0x53, 0x42, 1, 0x01, 0, 3, 0, 0, 0, 0, 0, 0, 0, 0, 0, 0, 0, 1, 1,
         0x53, 0x42, 1, 0x03, 0, 3, 0, 0, 0, 0, 0, 0, 0, 0, 0, 0, 0, 1, 2] 64,
      ticks = 0\<rparr>"

definition example_proof :: "string \<Rightarrow> string \<Rightarrow> string \<Rightarrow> 64 word \<Rightarrow> authProof" where
  "example_proof agentID challengeID nonce issuedAtMS =
     \<lparr>proof_Type = ''auth_proof'', proof_V = 1, proof_AgentID = agentID,
      proof_ChallengeID = challengeID, proof_Nonce = nonce, proof_IssuedAtMS = issuedAtMS,
      proof_Signature = ''sig''\<rparr>"

text \<open>The run after the challenge has been sent, and the challenge.\<close>

definition example_challenge :: authChallenge where
  "example_challenge =
     \<lparr>ch_Type = ''auth_challenge'', ch_V = 1, ch_ChallengeID = ''cid'', ch_Nonce = ''nonce'',
      ch_IssuedAtMS = 1000, ch_ExpiresAtMS = 31000\<rparr>"

definition example_challenged :: hs where
  "example_challenged =
     \<lparr>conn = \<lparr>nc = idle_transport
          \<lparr>rd_buf := [0x53, 0x42, 1, 0x03, 0, 3, 0, 0, 0, 0, 0, 0, 0, 0, 0, 0, 0, 1, 2],
           wr_buf := [0x53, 0x42, 1, 0x02, 0, 3, 0, 0, 0, 0, 0, 0, 0, 0, 0, 0, 0, 1, 0x63]\<rparr>,
        maxFramePayload = 64\<rparr>,
      ticks = 1\<rparr>"

definition example_proof_read :: Conn where
  "example_proof_read =
     \<lparr>nc = idle_transport
          \<lparr>wr_buf := [0x53, 0x42, 1, 0x02, 0, 3, 0, 0, 0, 0, 0, 0, 0, 0, 0, 0, 0, 1, 0x63]\<rparr>,
      maxFramePayload = 64\<rparr>"

section \<open>Properties of the frame codec\<close>

lemma Uint16_PutUint16 [simp]: "Uint16 (PutUint16 v) = v"
  unfolding Uint16_def PutUint16_def
  by (rule bit_word_eqI) (auto simp add: bit_simps)

lemma Uint32_PutUint32 [simp]: "Uint32 (PutUint32 v) = v"
proof (rule bit_word_eqI)
  fix n assume "n < LENGTH(32)"
  then consider "n < 8" | "8 \<le> n" "n < 16" | "16 \<le> n" "n < 24" | "24 \<le> n" "n < 32"
    by fastforce
  then show "bit (Uint32 (PutUint32 v)) n = bit v n"
    by cases (auto simp add: Uint32_def PutUint32_def bit_simps)
qed

lemma Uint64_PutUint64 [simp]: "Uint64 (PutUint64 v) = v"
proof (rule bit_word_eqI)
  fix n assume "n < LENGTH(64)"
  then consider "n < 8" | "8 \<le> n" "n < 16" | "16 \<le> n" "n < 24" | "24 \<le> n" "n < 32"
    | "32 \<le> n" "n < 40" | "40 \<le> n" "n < 48" | "48 \<le> n" "n < 56" | "56 \<le> n" "n < 64"
    by fastforce
  then show "bit (Uint64 (PutUint64 v)) n = bit v n"
    by cases (auto simp add: Uint64_def PutUint64_def bit_simps)
qed

lemma length_PutUint [simp]:
  "length (PutUint16 a) = 2" "length (PutUint32 b) = 4" "length (PutUint64 c) = 8"
  by (simp_all add: PutUint16_def PutUint32_def PutUint64_def)

lemma length_frame_header [simp]: "length (frame_header ty fl sid p) = 18"
  by (simp add: frame_header_def)

lemma frame_header_nth [simp]:
  "frame_header ty fl sid p ! 0 = v1Magic0"
  "frame_header ty fl sid p ! 1 = v1Magic1"
  "frame_header ty fl sid p ! 2 = v1Version"
  "frame_header ty fl sid p ! 3 = ty"
  by (simp_all add: frame_header_def)

lemma frame_header_fields [simp]:
  "take 2 (drop 4 (frame_header ty fl sid p)) = PutUint16 fl"
  "take 8 (drop 6 (frame_header ty fl sid p)) = PutUint64 sid"
  "take 4 (drop 14 (frame_header ty fl sid p)) = PutUint32 (word_of_nat (length p))"
  by (simp_all add: frame_header_def)

lemma ReadFull_append:
  "rd_buf r = hdr @ rest \<Longrightarrow> length hdr = n \<Longrightarrow> ReadFull r n = (r\<lparr>rd_buf := rest\<rparr>, Inr hdr)"
  by (simp add: ReadFull_def)

lemma too_large_iff:
  "0 \<le> mx \<Longrightarrow> mx < int (unat w) \<Longrightarrow> w > word_of_int mx" for w :: "32 word"
proof -
  assume a: "0 \<le> mx" "mx < int (unat w)"
  have "uint (word_of_int mx :: 32 word) \<le> mx"
    using a(1) by (simp add: uint_word_of_int zmod_le_nonneg_dividend)
  with a(2) show ?thesis by (simp add: word_less_def)
qed

lemma bit_3_int: "bit (3 :: int) n = (n < 2)"
  by (cases n; cases "n - 1"; simp add: bit_Suc bit_0)

lemma flags_outside_iff:
  "(fl AND NOT (flagStart OR flagEnd) \<noteq> 0) = list_ex (bit fl) [2..<16]" for fl :: "16 word"
proof -
  have "(fl AND NOT 3 = 0) = (\<forall>n<16. \<not> (bit fl n \<and> 2 \<le> n))"
    by (auto simp add: bit_eq_iff bit_simps bit_3_int not_less)
  moreover have "list_ex (bit fl) [2..<16] = (\<exists>n. 2 \<le> n \<and> n < 16 \<and> bit fl n)"
    unfolding list_ex_iff set_upt by (auto simp only: atLeastLessThan_iff)
  ultimately show ?thesis by simp blast
qed

lemma isKnownType_set:
  "isKnownType t = (t \<in> {0x01, 0x02, 0x03, 0x04, 0x05, 0x10, 0xFE, 0xFF})"
  by (auto simp add: isKnownType_def)

lemma magic_iff: "length hdr = 18 \<Longrightarrow>
   (hdr ! 0 \<noteq> v1Magic0 \<or> hdr ! 1 \<noteq> v1Magic1) = (take 2 hdr \<noteq> [0x53, 0x42])"
  by (cases hdr; cases "tl hdr"; auto)

lemma first_violation_simps:
  "first_violation [] = None"
  "first_violation ((b, e) # cs) = (if b then Some e else first_violation cs)"
  by (simp_all add: first_violation_def)

text \<open>
  C4. Decoding reads exactly the 18 header bytes, and a header that violates one or more
  of the constraints is rejected with the error of the first violated one in the order
  magic, version, type, flags, size.
\<close>

theorem decodeFrameFrom_header_priority:
  assumes buf: "rd_buf r = hdr @ rest" and len: "length hdr = 18" and mx: "0 \<le> maxPayload"
    and viol: "first_violation (header_checks hdr maxPayload) = Some e"
  shows "decodeFrameFrom r maxPayload = (r\<lparr>rd_buf := rest\<rparr>, Inl (Join ErrProtocol e))"
proof -
  have rf: "ReadFull r headerLen = (r\<lparr>rd_buf := rest\<rparr>, Inr hdr)"
    using buf len by (rule ReadFull_append)
  define fl where "fl = Uint16 (take 2 (drop 4 hdr))"
  define ln where "ln = Uint32 (take 4 (drop 14 hdr))"
  define magic where "magic = (hdr ! 0 \<noteq> v1Magic0 \<or> hdr ! 1 \<noteq> v1Magic1)"
  define badfl where "badfl = (fl AND NOT (flagStart OR flagEnd) \<noteq> 0)"
  define big where "big = (maxPayload < int (unat ln))"
  have v: "(if magic then Some ErrBadMagic
            else if hdr ! 2 \<noteq> v1Version then Some ErrBadVersion
            else if \<not> isKnownType (hdr ! 3) then Some ErrUnknownType
            else if badfl then Some ErrInvalidFlags
            else if big then Some ErrFrameTooLarge else None) = Some e"
    using viol
    by (simp only: header_checks_def first_violation_simps magic_iff [OF len, symmetric]
        isKnownType_set [symmetric] flags_outside_iff [symmetric] fl_def [symmetric]
        ln_def [symmetric] magic_def [symmetric] badfl_def [symmetric] big_def [symmetric])
  have big: "big \<Longrightarrow> ln > word_of_int maxPayload"
    unfolding big_def using mx by (rule too_large_iff)
  from v consider
      (m) "magic" "e = ErrBadMagic"
    | (v) "\<not> magic" "hdr ! 2 \<noteq> v1Version" "e = ErrBadVersion"
    | (t) "\<not> magic" "hdr ! 2 = v1Version" "\<not> isKnownType (hdr ! 3)" "e = ErrUnknownType"
    | (f) "\<not> magic" "hdr ! 2 = v1Version" "isKnownType (hdr ! 3)" "badfl"
          "e = ErrInvalidFlags"
    | (l) "\<not> magic" "hdr ! 2 = v1Version" "isKnownType (hdr ! 3)" "\<not> badfl" "big"
          "e = ErrFrameTooLarge"
    by (auto split: if_splits)
  then show ?thesis
  proof cases
    case m
    then show ?thesis unfolding magic_def by (simp add: decodeFrameFrom_def rf)
  next
    case v
    then show ?thesis unfolding magic_def by (simp add: decodeFrameFrom_def rf)
  next
    case t
    then show ?thesis unfolding magic_def by (simp add: decodeFrameFrom_def rf)
  next
    case f
    then show ?thesis unfolding magic_def badfl_def fl_def
      by (simp add: decodeFrameFrom_def rf)
  next
    case l
    with big have "ln > word_of_int maxPayload" by simp
    with l show ?thesis unfolding magic_def badfl_def fl_def ln_def
      by (simp add: decodeFrameFrom_def rf)
  qed
qed


theorem decodeFrameFrom_header_priority_witness:
  "first_violation
      (header_checks [0x53, 0x42, 0x02, 0x99, 0xFF, 0xFF, 0, 0, 0, 0, 0, 0, 0, 0, 0xFF, 0xFF, 0xFF, 0xFF] 16)
      = Some ErrBadVersion \<and>
   decodeFrameFrom
     \<lparr>rd_buf = [0x53, 0x42, 0x02, 0x99, 0xFF, 0xFF, 0, 0, 0, 0, 0, 0, 0, 0, 0xFF, 0xFF, 0xFF, 0xFF, 7],
      rd_err = EOF, wr_buf = [], wr_left = None, wr_err = EOF, closed = False\<rparr> 16
   = (\<lparr>rd_buf = [7], rd_err = EOF, wr_buf = [], wr_left = None, wr_err = EOF, closed = False\<rparr>,
      Inl (Join ErrProtocol ErrBadVersion))"
proof -
  have h: "first_violation
      (header_checks [0x53, 0x42, 0x02, 0x99, 0xFF, 0xFF, 0, 0, 0, 0, 0, 0, 0, 0, 0xFF, 0xFF, 0xFF, 0xFF] 16)
      = Some ErrBadVersion"
    by (simp add: first_violation_def header_checks_def)
  show ?thesis
    using decodeFrameFrom_header_priority [where rest = "[7]", OF _ _ _ h,
        of "\<lparr>rd_buf = [0x53, 0x42, 0x02, 0x99, 0xFF, 0xFF, 0, 0, 0, 0, 0, 0, 0, 0, 0xFF, 0xFF, 0xFF, 0xFF, 7],
      rd_err = EOF, wr_buf = [], wr_left = None, wr_err = EOF, closed = False\<rparr>"]
    using h by simp
qed

declare chunks.simps [simp del]

lemma concat_chunks [simp]: "concat (chunks n p) = p"
  by (induction n p rule: chunks.induct) (subst chunks.simps, simp)

lemma chunks_fits: "length p \<le> n \<Longrightarrow> chunks n p = [p]"
  by (subst chunks.simps) simp

lemma chunks_split: "0 < n \<Longrightarrow> n < length p \<Longrightarrow> chunks n p = take n p # chunks n (drop n p)"
  by (subst chunks.simps) simp

lemma chunks_nonempty [simp]: "chunks n p \<noteq> []"
  by (subst chunks.simps) simp

lemma chunks_length_le: "0 < n \<Longrightarrow> ch \<in> set (chunks n p) \<Longrightarrow> length ch \<le> n"
  by (induction n p rule: chunks.induct) (subst (asm) (2) chunks.simps, auto split: if_splits)

lemma chunks_many: "0 < n \<Longrightarrow> n < length p \<Longrightarrow> 2 \<le> length (chunks n p)"
  by (simp add: chunks_split Suc_le_eq)

lemma Write_ok: "wr_left w = None \<Longrightarrow> Write w p = (w\<lparr>wr_buf := wr_buf w @ p\<rparr>, None)"
  by (simp add: Write_def)

lemma encodeFrameTo_ok:
  "wr_left w = None \<Longrightarrow>
   encodeFrameTo w ty fl sid p = (w\<lparr>wr_buf := wr_buf w @ wire_frame ty sid (fl, p)\<rparr>, None)"
  by (simp add: encodeFrameTo_def Write_ok wire_frame_def)

lemma cont_flags_Suc: "0 < k \<Longrightarrow> cont_flags (Suc k) = 0 # cont_flags k"
  by (cases k) (simp_all add: cont_flags_def)

lemma cont_flags_1 [simp]: "cont_flags (Suc 0) = [flagEnd]"
  by (simp add: cont_flags_def)

lemma length_cont_flags [simp]: "0 < k \<Longrightarrow> length (cont_flags k) = k"
  by (simp add: cont_flags_def)

lemma frag_loop_Nil [simp]: "frag_loop mx ty sid [] first w = Some (w, None)"
  by (subst frag_loop.simps) simp

lemma frag_loop_ok:
  assumes "0 < mx" "wr_left w = None" "remaining \<noteq> []"
  shows "frag_loop mx ty sid remaining first w =
     Some (w\<lparr>wr_buf := wr_buf w @ concat (map (wire_frame ty sid)
              (zip (if first then frame_flags (length (chunks (nat mx) remaining))
                    else cont_flags (length (chunks (nat mx) remaining)))
                   (chunks (nat mx) remaining)))\<rparr>, None)"
  using assms
proof (induction "nat mx" remaining arbitrary: w first rule: chunks.induct)
  case (1 p)
  show ?case
  proof (cases "length p \<le> nat mx")
    case True
    then have le: "\<not> int (length p) > mx" using 1 by linarith
    have "frag_loop mx ty sid p first w =
        Some (w\<lparr>wr_buf := wr_buf w @ wire_frame ty sid ((if first then flagStart else 0) OR flagEnd, p)\<rparr>, None)"
      using 1(2-) le
      by (subst frag_loop.simps) (simp add: encodeFrameTo_ok)
    then show ?thesis using True by (simp add: chunks_fits frame_flags_def)
  next
    case False
    then have gt: "int (length p) > mx" and n0: "\<not> (nat mx = 0 \<or> length p \<le> nat mx)"
      using 1 by linarith+
    let ?w1 = "w\<lparr>wr_buf := wr_buf w @ wire_frame ty sid ((if first then flagStart else 0), take (nat mx) p)\<rparr>"
    have rest: "drop (nat mx) p \<noteq> []" using False by simp
    have ih: "frag_loop mx ty sid (drop (nat mx) p) False ?w1 =
       Some (?w1\<lparr>wr_buf := wr_buf ?w1 @ concat (map (wire_frame ty sid)
              (zip (cont_flags (length (chunks (nat mx) (drop (nat mx) p))))
                   (chunks (nat mx) (drop (nat mx) p))))\<rparr>, None)"
      using 1(1) [OF n0, of ?w1 False] 1(2-) rest by simp
    have step: "frag_loop mx ty sid p first w = frag_loop mx ty sid (drop (nat mx) p) False ?w1"
      using 1(2-) gt rest
      by (subst frag_loop.simps) (simp add: encodeFrameTo_ok min_def)
    have k: "0 < length (chunks (nat mx) (drop (nat mx) p))" by simp
    show ?thesis
      using False 1(2) k
      by (simp add: step ih chunks_split frame_flags_def cont_flags_Suc)
  qed
qed


lemma wrote_eq:
  "c\<lparr>nc := (nc c)\<lparr>wr_buf := wr_buf (nc c) @ a\<rparr>\<lparr>wr_buf := wr_buf ((nc c)\<lparr>wr_buf := wr_buf (nc c) @ a\<rparr>) @ b\<rparr>\<rparr>
   = c\<lparr>nc := (nc c)\<lparr>wr_buf := wr_buf (nc c) @ a @ b\<rparr>\<rparr>"
  by simp

lemma frame_flags_single [simp]: "frame_flags (Suc 0) = [startEndFlags]"
  by (simp add: frame_flags_def)

lemma frame_flags_many: "0 < k \<Longrightarrow> frame_flags (Suc k) = flagStart # cont_flags k"
  by (simp add: frame_flags_def)

lemma sendWithFragmentation_ok:
  assumes "0 < maxFramePayload c" "wr_left (nc c) = None"
  shows "sendWithFragmentation c ty sid p =
     Some (c\<lparr>nc := (nc c)\<lparr>wr_buf := wr_buf (nc c) @ concat (map (wire_frame ty sid)
              (zip (frame_flags (length (chunks (nat (maxFramePayload c)) p)))
                   (chunks (nat (maxFramePayload c)) p)))\<rparr>\<rparr>, None)"
proof (cases "int (length p) \<le> maxFramePayload c")
  case True
  then have "length p \<le> nat (maxFramePayload c)" by linarith
  then show ?thesis
    using True assms by (simp add: sendWithFragmentation_def encodeFrameTo_ok chunks_fits)
next
  case False
  then have "p \<noteq> []" using assms by auto
  then show ?thesis
    using False assms
    by (simp add: sendWithFragmentation_def frag_loop_ok [where first = True, simplified])
qed

lemma take_env: "length e \<le> n \<Longrightarrow> take n (e @ d) = e @ take (n - length e) d"
  by simp

lemma drop_env: "length e \<le> n \<Longrightarrow> drop n (e @ d) = drop (n - length e) d"
  by simp

lemma Send_payload_ok:
  assumes ty: "Type m = TypeMessagePayload" and v: "valid_message m"
    and mx: "4 \<le> maxFramePayload c" and w: "wr_left (nc c) = None"
  shows "Send cx m c =
     Some (c\<lparr>nc := (nc c)\<lparr>wr_buf := wr_buf (nc c) @ concat (map (wire_frame (Type m) (StreamID m))
              (zip (frame_flags (length (chunks (nat (maxFramePayload c)) (message_bytes m))))
                   (chunks (nat (maxFramePayload c)) (message_bytes m))))\<rparr>\<rparr>, None)"
proof -
  let ?mx = "maxFramePayload c"
  let ?env = "[Kind m, 0, 0, 0] :: byte list"
  have f: "Format m = 0" "StreamID m \<noteq> 0"
    and k: "\<not> (Kind m \<noteq> PayloadKindRequest \<and> Kind m \<noteq> PayloadKindResponse \<and> Kind m \<noteq> PayloadKindOneway)"
    using v ty by (auto simp add: valid_message_def isAuthType_def)
  have mb: "message_bytes m = ?env @ Data m"
    using ty f by (simp add: message_bytes_def)
  show ?thesis
  proof (cases "int (length (Data m)) > ?mx - 4")
    case False
    then have "length (?env @ Data m) \<le> nat ?mx" by simp
    then have ch: "chunks (nat ?mx) (message_bytes m) = [?env @ Data m]"
      unfolding mb by (rule chunks_fits)
    show ?thesis
      using False ty f k mx w unfolding ch
      by (simp add: Send_def isAuthType_def Let_def encodeFrameTo_ok)
  next
    case True
    have n: "length ?env \<le> nat ?mx" "nat ?mx - length ?env = nat (?mx - 4)"
      using mx by simp_all
    have tk: "take (nat ?mx) (?env @ Data m) = ?env @ take (nat (?mx - 4)) (Data m)"
      using take_env [OF n(1), of "Data m"] by (simp only: n(2))
    have dr: "drop (nat ?mx) (?env @ Data m) = drop (nat (?mx - 4)) (Data m)"
      using drop_env [OF n(1), of "Data m"] by (simp only: n(2))
    have "nat (?mx - 4) < length (Data m)" using True mx by linarith
    then have ne: "drop (nat (?mx - 4)) (Data m) \<noteq> []" by simp
    have lt: "nat ?mx < length (?env @ Data m)" using True mx by simp
    have ch: "chunks (nat ?mx) (message_bytes m)
        = (?env @ take (nat (?mx - 4)) (Data m)) # chunks (nat ?mx) (drop (nat (?mx - 4)) (Data m))"
      unfolding mb using chunks_split [OF _ lt] mx by (simp only: tk dr)
    have pos: "0 < ?mx" using mx by simp
    have "min (length (Data m)) (nat (?mx - 4)) = nat (?mx - 4)" using True by simp
    then show ?thesis
      using True ty f k mx w ne unfolding ch
      by (simp add: Send_def isAuthType_def Let_def encodeFrameTo_ok
          frag_loop_ok [OF pos, where first = False, simplified] frame_flags_many)
  qed
qed




lemma Send_ping:
  "Type m = TypePing \<or> Type m = TypePong \<Longrightarrow> StreamID m = 0 \<Longrightarrow> Payload m = [] \<Longrightarrow> Data m = []
   \<Longrightarrow> Send cx m c = (case encodeFrameTo (nc c) (Type m) startEndFlags 0 [] of
                    (w, r) \<Rightarrow> Some (c\<lparr>nc := w\<rparr>, r))"
  unfolding Send_def by (simp only: if_True if_False simp_thms)

lemma Send_auth:
  "isAuthType (Type m) \<Longrightarrow> StreamID m = 0
   \<Longrightarrow> Send cx m c = sendWithFragmentation c (Type m) 0 (Payload m)"
proof -
  assume a: "isAuthType (Type m)" "StreamID m = 0"
  then have "\<not> (Type m = TypePing \<or> Type m = TypePong)" by (auto simp add: isAuthType_def)
  with a show ?thesis unfolding Send_def by (simp only: if_True if_False simp_thms)
qed


lemma Send_ok:
  assumes v: "valid_message m" and w: "wr_left (nc c) = None"
    and mx: "0 < maxFramePayload c" "Type m = TypeMessagePayload \<longrightarrow> 4 \<le> maxFramePayload c"
  shows "Send cx m c =
     Some (c\<lparr>nc := (nc c)\<lparr>wr_buf := wr_buf (nc c) @ concat (map (wire_frame (Type m) (StreamID m))
              (zip (frame_flags (length (chunks (nat (maxFramePayload c)) (message_bytes m))))
                   (chunks (nat (maxFramePayload c)) (message_bytes m))))\<rparr>\<rparr>, None)"
proof -
  consider (ping) "Type m = TypePing \<or> Type m = TypePong"
    | (auth) "isAuthType (Type m)" "\<not> (Type m = TypePing \<or> Type m = TypePong)"
    | (pay) "Type m = TypeMessagePayload"
    using v unfolding valid_message_def by presburger
  then show ?thesis
  proof cases
    case ping
    then have mb: "message_bytes m = []" by (auto simp add: message_bytes_def isAuthType_def)
    have z: "StreamID m = 0" "Payload m = []" "Data m = []"
      using v ping by (simp_all add: valid_message_def)
    show ?thesis
      unfolding Send_ping [OF ping z] mb using w
      by (simp add: chunks_fits encodeFrameTo_ok z)
  next
    case auth
    then have z: "message_bytes m = Payload m" "StreamID m = 0"
      using v by (auto simp add: message_bytes_def isAuthType_def valid_message_def)
    show ?thesis
      unfolding Send_auth [OF auth(1) z(2)] z sendWithFragmentation_ok [OF mx(1) w] ..
  next
    case pay
    then show ?thesis using Send_payload_ok v mx w by blast
  qed
qed

section \<open>Properties of reception\<close>

lemma unat_len32: "int n \<le> mx \<Longrightarrow> mx < 4294967296 \<Longrightarrow> unat (word_of_nat n :: 32 word) = n"
  by (simp add: unat_of_nat)

lemma not_too_large:
  assumes "int n \<le> mx" "mx < 4294967296"
  shows "\<not> (word_of_nat n :: 32 word) > word_of_int mx"
proof -
  have "0 \<le> mx" using assms by linarith
  then have "uint (word_of_int mx :: 32 word) = mx"
    using assms(2) by (simp add: uint_word_of_int)
  moreover have "uint (word_of_nat n :: 32 word) = int n"
    using unat_len32 [OF assms] by (metis uint_nat)
  ultimately show ?thesis using assms(1) by (simp add: word_less_def)
qed

lemma frame_header_nth_Suc [simp]: "frame_header ty fl sid p ! Suc 0 = v1Magic1"
  by (simp add: frame_header_def)

lemma decodeFrameFrom_wire:
  assumes known: "isKnownType ty" and fl: "fl AND NOT (flagStart OR flagEnd) = 0"
    and len: "int (length p) \<le> mx" and mx: "mx < 4294967296"
    and buf: "rd_buf r = wire_frame ty sid (fl, p) @ rest"
  shows "decodeFrameFrom r mx =
     (r\<lparr>rd_buf := rest\<rparr>,
      Inr \<lparr>f_typ = ty, f_flags = fl, f_streamID = sid, f_payload = p,
            f_payloadLn = word_of_nat (length p)\<rparr>)"
proof -
  let ?h = "frame_header ty fl sid p"
  have rf: "ReadFull r headerLen = (r\<lparr>rd_buf := p @ rest\<rparr>, Inr ?h)"
    using buf by (intro ReadFull_append) (simp_all add: wire_frame_def)
  have rp: "ReadFull (r\<lparr>rd_buf := p @ rest\<rparr>) (length p) = (r\<lparr>rd_buf := rest\<rparr>, Inr p)"
    using ReadFull_append [of "r\<lparr>rd_buf := p @ rest\<rparr>" p rest "length p"] by simp
  have z: "((word_of_nat (length p) :: 32 word) > 0) = (p \<noteq> [])"
    using unat_len32 [OF len mx] by (metis length_0_conv unat_gt_0 unat_0 word_gt_0)
  show ?thesis
    unfolding decodeFrameFrom_def rf
    using known fl not_too_large [OF len mx] z rp unat_len32 [OF len mx]
    by (simp add: Let_def)
qed

lemma readFrame_wire:
  assumes "isKnownType ty" "fl AND NOT (flagStart OR flagEnd) = 0"
    "int (length p) \<le> maxFramePayload c" "maxFramePayload c < 4294967296"
    "rd_buf (nc c) = wire_frame ty sid (fl, p) @ rest"
  shows "readFrame cx c =
     (c\<lparr>nc := (nc c)\<lparr>rd_buf := rest\<rparr>\<rparr>,
      Inr \<lparr>f_typ = ty, f_flags = fl, f_streamID = sid, f_payload = p,
            f_payloadLn = word_of_nat (length p)\<rparr>)"
  by (simp add: readFrame_def decodeFrameFrom_wire [OF assms])


declare reassemble.simps [simp del]

lemma reassemble_done [simp]: "reassemble cx ty sid c buf True = (c, Inr buf)"
  by (subst reassemble.simps) simp

lemma reassemble_step:
  assumes "readFrame cx c = (c1, Inr next)" "f_typ next = ty" "f_streamID next = sid"
    "f_flags next = 0 \<or> f_flags next = flagEnd"
  shows "reassemble cx ty sid c buf False =
         reassemble cx ty sid c1 (buf @ f_payload next) (f_flags next = flagEnd)"
  using assms by (subst reassemble.simps) auto

lemma reassemble_wire:
  assumes "cs \<noteq> []" "isKnownType ty" "maxFramePayload c < 4294967296"
    "\<forall>ch\<in>set cs. int (length ch) \<le> maxFramePayload c"
    "rd_buf (nc c) = concat (map (wire_frame ty sid) (zip (cont_flags (length cs)) cs)) @ rest"
  shows "reassemble cx ty sid c buf False = (c\<lparr>nc := (nc c)\<lparr>rd_buf := rest\<rparr>\<rparr>, Inr (buf @ concat cs))"
  using assms
proof (induction cs arbitrary: c buf rule: list_nonempty_induct)
  case (single ch)
  have rf: "readFrame cx c = (c\<lparr>nc := (nc c)\<lparr>rd_buf := rest\<rparr>\<rparr>,
      Inr \<lparr>f_typ = ty, f_flags = flagEnd, f_streamID = sid, f_payload = ch,
            f_payloadLn = word_of_nat (length ch)\<rparr>)"
    using single by (intro readFrame_wire) simp_all
  show ?case by (simp add: reassemble_step [OF rf])
next
  case (cons ch cs)
  let ?r1 = "concat (map (wire_frame ty sid) (zip (cont_flags (length cs)) cs)) @ rest"
  let ?c1 = "c\<lparr>nc := (nc c)\<lparr>rd_buf := ?r1\<rparr>\<rparr>"
  have k: "0 < length cs" using cons(1) by simp
  have rf: "readFrame cx c = (?c1,
      Inr \<lparr>f_typ = ty, f_flags = 0, f_streamID = sid, f_payload = ch,
            f_payloadLn = word_of_nat (length ch)\<rparr>)"
    using cons(3-) k by (intro readFrame_wire) (simp_all add: cont_flags_Suc)
  have "reassemble cx ty sid ?c1 (buf @ ch) False =
        (?c1\<lparr>nc := (nc ?c1)\<lparr>rd_buf := rest\<rparr>\<rparr>, Inr ((buf @ ch) @ concat cs))"
    using cons(3-) by (intro cons(2)) simp_all
  then show ?case by (simp add: reassemble_step [OF rf])
qed


lemma isAuthType_not_others:
  "isAuthType ty \<Longrightarrow> ty \<noteq> TypePing \<and> ty \<noteq> TypePong \<and> ty \<noteq> TypeMessagePayload \<and> isKnownType ty"
  by (auto simp add: isAuthType_def isKnownType_def)

lemma ReadNext_no_start:
  "readFrame cx c = (c1, Inr fr) \<Longrightarrow> f_flags fr AND flagStart = 0
   \<Longrightarrow> ReadNext cx c = (Conn_Close c1, Inl (Join ErrProtocol ErrFragmentation))"
  by (simp add: ReadNext_def)

lemma ReadNext_ping:
  "readFrame cx c = (c1, Inr fr) \<Longrightarrow> f_typ fr = TypePing \<or> f_typ fr = TypePong
   \<Longrightarrow> f_streamID fr = 0 \<Longrightarrow> f_payload fr = [] \<Longrightarrow> f_flags fr = startEndFlags
   \<Longrightarrow> ReadNext cx c = (c1, Inr \<lparr>Type = f_typ fr, StreamID = 0, Payload = [], Kind = 0,
                                   Format = 0, Data = []\<rparr>)"
  by (simp add: ReadNext_def)

lemma ReadNext_auth:
  assumes "readFrame cx c = (c1, Inr fr)" "f_flags fr AND flagStart \<noteq> 0"
    "isAuthType (f_typ fr)" "f_streamID fr = 0"
  shows "ReadNext cx c =
     (case reassemble cx (f_typ fr) 0 c1 (f_payload fr) (f_flags fr AND flagEnd \<noteq> 0) of
        (c2, Inl err) \<Rightarrow> (c2, Inl err)
      | (c2, Inr payload) \<Rightarrow>
          (c2, Inr \<lparr>Type = f_typ fr, StreamID = 0, Payload = payload, Kind = 0,
                    Format = 0, Data = []\<rparr>))"
  using assms isAuthType_not_others [OF assms(3)]
  by (simp add: ReadNext_def Let_def)

lemma ReadNext_payload:
  assumes "readFrame cx c = (c1, Inr fr)" "f_flags fr AND flagStart \<noteq> 0"
    "f_typ fr = TypeMessagePayload" "f_streamID fr \<noteq> 0" "4 \<le> length (f_payload fr)"
    "f_payload fr ! 2 = 0" "f_payload fr ! 3 = 0" "f_payload fr ! 1 = 0"
    "f_payload fr ! 0 \<in> {PayloadKindRequest, PayloadKindResponse, PayloadKindOneway}"
  shows "ReadNext cx c =
     (case reassemble cx TypeMessagePayload (f_streamID fr) c1 (drop 4 (f_payload fr))
             (f_flags fr AND flagEnd \<noteq> 0) of
        (c2, Inl err) \<Rightarrow> (c2, Inl err)
      | (c2, Inr data) \<Rightarrow>
          (c2, Inr \<lparr>Type = TypeMessagePayload, StreamID = f_streamID fr, Payload = [],
                    Kind = f_payload fr ! 0, Format = 0, Data = data\<rparr>))"
proof -
  have k: "\<not> (f_payload fr ! 0 \<noteq> PayloadKindRequest \<and> f_payload fr ! 0 \<noteq> PayloadKindResponse
        \<and> f_payload fr ! 0 \<noteq> PayloadKindOneway)"
    using assms(9) by blast
  show ?thesis
    using assms(1-8) k
    by (simp add: ReadNext_def Let_def isAuthType_def del: de_Morgan_conj)
qed


lemma flags_wellformed [simp]:
  "(startEndFlags AND NOT (flagStart OR flagEnd)) = 0"
  "(flagStart AND NOT (flagStart OR flagEnd)) = 0"
  "(flagEnd AND NOT (flagStart OR flagEnd)) = 0"
  "((0 :: 16 word) AND NOT (flagStart OR flagEnd)) = 0"
  by simp_all

lemma ReadNext_frames_auth:
  assumes ne: "cs \<noteq> []" and ty: "isAuthType ty" and mx: "maxFramePayload c < 4294967296"
    and le: "\<forall>ch\<in>set cs. int (length ch) \<le> maxFramePayload c"
    and buf: "rd_buf (nc c) =
       concat (map (wire_frame ty 0) (zip (frame_flags (length cs)) cs)) @ rest"
  shows "ReadNext cx c =
     (c\<lparr>nc := (nc c)\<lparr>rd_buf := rest\<rparr>\<rparr>,
      Inr \<lparr>Type = ty, StreamID = 0, Payload = concat cs, Kind = 0, Format = 0, Data = []\<rparr>)"
proof -
  note kn = isAuthType_not_others [OF ty]
  obtain c0 cs' where cs: "cs = c0 # cs'" using ne by (cases cs) auto
  show ?thesis
  proof (cases "cs' = []")
    case True
    have rf: "readFrame cx c = (c\<lparr>nc := (nc c)\<lparr>rd_buf := rest\<rparr>\<rparr>,
        Inr \<lparr>f_typ = ty, f_flags = startEndFlags, f_streamID = 0, f_payload = c0,
              f_payloadLn = word_of_nat (length c0)\<rparr>)"
      using kn mx le buf cs True by (intro readFrame_wire) simp_all
    show ?thesis
      using ty cs True by (subst ReadNext_auth [OF rf]) simp_all
  next
    case False
    let ?r1 = "concat (map (wire_frame ty 0) (zip (cont_flags (length cs')) cs')) @ rest"
    let ?c1 = "c\<lparr>nc := (nc c)\<lparr>rd_buf := ?r1\<rparr>\<rparr>"
    have k: "0 < length cs'" using False by simp
    have rf: "readFrame cx c = (?c1,
        Inr \<lparr>f_typ = ty, f_flags = flagStart, f_streamID = 0, f_payload = c0,
              f_payloadLn = word_of_nat (length c0)\<rparr>)"
      using kn mx le buf cs k by (intro readFrame_wire) (simp_all add: frame_flags_many)
    have ra: "reassemble cx ty 0 ?c1 c0 False =
        (?c1\<lparr>nc := (nc ?c1)\<lparr>rd_buf := rest\<rparr>\<rparr>, Inr (c0 @ concat cs'))"
      using kn mx le cs False by (intro reassemble_wire) simp_all
    show ?thesis
      using ty cs by (subst ReadNext_auth [OF rf]) (simp_all add: ra)
  qed
qed

lemma ReadNext_frames_payload:
  assumes ne: "cs \<noteq> []" and sid: "sid \<noteq> 0" and mx: "maxFramePayload c < 4294967296"
    and le: "\<forall>ch\<in>set cs. int (length ch) \<le> maxFramePayload c"
    and env: "4 \<le> length (hd cs)" "hd cs ! 1 = 0" "hd cs ! 2 = 0" "hd cs ! 3 = 0"
      "hd cs ! 0 \<in> {PayloadKindRequest, PayloadKindResponse, PayloadKindOneway}"
    and buf: "rd_buf (nc c) =
       concat (map (wire_frame TypeMessagePayload sid) (zip (frame_flags (length cs)) cs)) @ rest"
  shows "ReadNext cx c =
     (c\<lparr>nc := (nc c)\<lparr>rd_buf := rest\<rparr>\<rparr>,
      Inr \<lparr>Type = TypeMessagePayload, StreamID = sid, Payload = [], Kind = hd cs ! 0,
            Format = 0, Data = drop 4 (concat cs)\<rparr>)"
proof -
  have kn: "isKnownType TypeMessagePayload" by (simp add: isKnownType_def)
  obtain c0 cs' where cs: "cs = c0 # cs'" using ne by (cases cs) auto
  have e: "4 \<le> length c0" "c0 ! 1 = 0" "c0 ! 2 = 0" "c0 ! 3 = 0"
      "c0 ! 0 \<in> {PayloadKindRequest, PayloadKindResponse, PayloadKindOneway}"
    using env cs by simp_all
  show ?thesis
  proof (cases "cs' = []")
    case True
    have rf: "readFrame cx c = (c\<lparr>nc := (nc c)\<lparr>rd_buf := rest\<rparr>\<rparr>,
        Inr \<lparr>f_typ = TypeMessagePayload, f_flags = startEndFlags, f_streamID = sid,
              f_payload = c0, f_payloadLn = word_of_nat (length c0)\<rparr>)"
      using kn mx le buf cs True by (intro readFrame_wire) simp_all
    show ?thesis
      using sid e cs True by (subst ReadNext_payload [OF rf]) simp_all
  next
    case False
    let ?r1 = "concat (map (wire_frame TypeMessagePayload sid) (zip (cont_flags (length cs')) cs')) @ rest"
    let ?c1 = "c\<lparr>nc := (nc c)\<lparr>rd_buf := ?r1\<rparr>\<rparr>"
    have k: "0 < length cs'" using False by simp
    have rf: "readFrame cx c = (?c1,
        Inr \<lparr>f_typ = TypeMessagePayload, f_flags = flagStart, f_streamID = sid,
              f_payload = c0, f_payloadLn = word_of_nat (length c0)\<rparr>)"
      using kn mx le buf cs k by (intro readFrame_wire) (simp_all add: frame_flags_many)
    have ra: "reassemble cx TypeMessagePayload sid ?c1 (drop 4 c0) False =
        (?c1\<lparr>nc := (nc ?c1)\<lparr>rd_buf := rest\<rparr>\<rparr>, Inr (drop 4 c0 @ concat cs'))"
      using kn mx le cs False by (intro reassemble_wire) simp_all
    show ?thesis
      using sid e cs by (subst ReadNext_payload [OF rf]) (simp_all add: ra)
  qed
qed


lemma hd_chunks: "0 < n \<Longrightarrow> hd (chunks n p) = take n p"
  by (subst chunks.simps) simp

lemma ReadNext_message:
  assumes v: "valid_message m"
    and mx: "0 < maxFramePayload c" "Type m = TypeMessagePayload \<longrightarrow> 4 \<le> maxFramePayload c"
      "maxFramePayload c < 4294967296"
    and buf: "rd_buf (nc c) =
       concat (map (wire_frame (Type m) (StreamID m))
         (zip (frame_flags (length (chunks (nat (maxFramePayload c)) (message_bytes m))))
              (chunks (nat (maxFramePayload c)) (message_bytes m)))) @ rest"
  shows "ReadNext cx c =
     (c\<lparr>nc := (nc c)\<lparr>rd_buf := rest\<rparr>\<rparr>,
      Inr \<lparr>Type = Type m, StreamID = StreamID m,
            Payload = (if Type m = TypeMessagePayload then [] else Payload m),
            Kind = (if Type m = TypeMessagePayload then Kind m else 0),
            Format = 0,
            Data = (if Type m = TypeMessagePayload then Data m else [])\<rparr>)"
proof -
  let ?cs = "chunks (nat (maxFramePayload c)) (message_bytes m)"
  have n: "0 < nat (maxFramePayload c)" using mx(1) by simp
  have le: "\<forall>ch\<in>set ?cs. int (length ch) \<le> maxFramePayload c"
  proof
    fix ch assume "ch \<in> set ?cs"
    then have "length ch \<le> nat (maxFramePayload c)" by (rule chunks_length_le [OF n])
    then show "int (length ch) \<le> maxFramePayload c" using mx(1) by linarith
  qed
  consider (ping) "Type m = TypePing \<or> Type m = TypePong"
    | (auth) "isAuthType (Type m)" "\<not> (Type m = TypePing \<or> Type m = TypePong)"
    | (pay) "Type m = TypeMessagePayload"
    using v unfolding valid_message_def by presburger
  then show ?thesis
  proof cases
    case ping
    then have mb: "message_bytes m = []" by (auto simp add: message_bytes_def isAuthType_def)
    have z: "StreamID m = 0" "Payload m = []" "Data m = []"
      using v ping by (simp_all add: valid_message_def)
    have kn: "isKnownType (Type m)" using ping by (auto simp add: isKnownType_def)
    have rf: "readFrame cx c = (c\<lparr>nc := (nc c)\<lparr>rd_buf := rest\<rparr>\<rparr>,
        Inr \<lparr>f_typ = Type m, f_flags = startEndFlags, f_streamID = 0, f_payload = [],
              f_payloadLn = word_of_nat (length ([] :: byte list))\<rparr>)"
      using kn mx buf z unfolding mb by (intro readFrame_wire) (simp_all add: chunks_fits)
    show ?thesis
      using ping z by (subst ReadNext_ping [OF rf]) auto
  next
    case auth
    then have z: "message_bytes m = Payload m" "StreamID m = 0" "Type m \<noteq> TypeMessagePayload"
      using v by (auto simp add: message_bytes_def isAuthType_def valid_message_def)
    show ?thesis
      using ReadNext_frames_auth [OF chunks_nonempty auth(1) mx(3) le, of rest cx]
        buf z by simp
  next
    case pay
    then have f: "Format m = 0" "StreamID m \<noteq> 0"
      "Kind m \<in> {PayloadKindRequest, PayloadKindResponse, PayloadKindOneway}"
      using v by (auto simp add: valid_message_def isAuthType_def)
    have mb: "message_bytes m = [Kind m, 0, 0, 0] @ Data m"
      using pay f by (simp add: message_bytes_def)
    have four: "4 \<le> nat (maxFramePayload c)" using mx(2) pay by simp
    have hd: "hd ?cs = take (nat (maxFramePayload c)) ([Kind m, 0, 0, 0] @ Data m)"
      unfolding mb by (rule hd_chunks [OF n])
    have "length [Kind m, 0, 0, 0] \<le> nat (maxFramePayload c)" using four by simp
    note tk = take_env [OF this, of "Data m"]
    have env: "4 \<le> length (hd ?cs)" "hd ?cs ! 1 = 0" "hd ?cs ! 2 = 0" "hd ?cs ! 3 = 0"
      "hd ?cs ! 0 = Kind m"
      unfolding hd tk by simp_all
    have k: "hd ?cs ! 0 \<in> {PayloadKindRequest, PayloadKindResponse, PayloadKindOneway}"
      unfolding env(5) by (rule f(3))
    have "drop 4 (concat ?cs) = Data m" by (simp add: mb)
    then show ?thesis
      using ReadNext_frames_payload [OF chunks_nonempty f(2) mx(3) le env(1-4) k, of rest cx]
        buf pay env(5) by simp
  qed
qed

text \<open>
  The round trip for every maximum from 4 to \<open>2^32 - 1\<close>: on a transport that accepts the
  writes \<open>Send\<close> returns without error, and \<open>ReadNext\<close> on a connection with the same
  maximum that receives the written bytes returns the message: the same type and
  stream id, for a payload message the same kind, format and data, for the other types
  the same payload; a message that follows the convention of the struct is returned
  as it was sent.
\<close>

theorem Send_ReadNext_roundtrip:
  assumes v: "valid_message m"
    and mx: "4 \<le> maxFramePayload s" "maxFramePayload s < 4294967296"
    and w: "wr_left (nc s) = None"
    and r: "maxFramePayload r = maxFramePayload s"
  shows "\<exists>out. Send cx m s = Some (s\<lparr>nc := (nc s)\<lparr>wr_buf := wr_buf (nc s) @ out\<rparr>\<rparr>, None) \<and>
     (rd_buf (nc r) = out @ rest \<longrightarrow>
       (\<exists>m'. ReadNext cx' r = (r\<lparr>nc := (nc r)\<lparr>rd_buf := rest\<rparr>\<rparr>, Inr m') \<and>
          Type m' = Type m \<and> StreamID m' = StreamID m \<and>
          (if Type m = TypeMessagePayload
           then Kind m' = Kind m \<and> Format m' = Format m \<and> Data m' = Data m
           else Payload m' = Payload m) \<and>
          (unused_fields_zero m \<longrightarrow> m' = m)))"
proof -
  let ?out = "concat (map (wire_frame (Type m) (StreamID m))
         (zip (frame_flags (length (chunks (nat (maxFramePayload s)) (message_bytes m))))
              (chunks (nat (maxFramePayload s)) (message_bytes m))))"
  have pos: "0 < maxFramePayload s" "Type m = TypeMessagePayload \<longrightarrow> 4 \<le> maxFramePayload s"
    using mx by simp_all
  have snd: "Send cx m s = Some (s\<lparr>nc := (nc s)\<lparr>wr_buf := wr_buf (nc s) @ ?out\<rparr>\<rparr>, None)"
    by (rule Send_ok [OF v w pos])
  have f0: "Type m = TypeMessagePayload \<Longrightarrow> Format m = 0"
    using v by (auto simp add: valid_message_def isAuthType_def)
  have rcv: "rd_buf (nc r) = ?out @ rest \<Longrightarrow> ReadNext cx' r =
     (r\<lparr>nc := (nc r)\<lparr>rd_buf := rest\<rparr>\<rparr>,
      Inr \<lparr>Type = Type m, StreamID = StreamID m,
            Payload = (if Type m = TypeMessagePayload then [] else Payload m),
            Kind = (if Type m = TypeMessagePayload then Kind m else 0),
            Format = 0,
            Data = (if Type m = TypeMessagePayload then Data m else [])\<rparr>)"
    using ReadNext_message [OF v, of r rest cx'] pos mx(2) unfolding r by simp
  show ?thesis
    apply (rule exI [of _ ?out])
    apply (rule conjI [OF snd])
    apply (rule impI)
    apply (drule rcv)
    apply (auto simp add: f0 unused_fields_zero_def)
    done
qed

section \<open>Sending: flag discipline, cancellation, round trip\<close>

text \<open>A connection built by \<open>New\<close> with \<open>WithMaxFramePayloadBytes\<close> has a positive maximum.\<close>

lemma fold_WithMaxFramePayloadBytes_pos:
  "0 < maxFramePayload c \<Longrightarrow>
   0 < maxFramePayload (fold (\<lambda>opt c. opt c) (map WithMaxFramePayloadBytes ns) c)"
  by (induction ns arbitrary: c) (simp_all add: WithMaxFramePayloadBytes_def)

lemma New_maxFramePayload_pos:
  "0 < maxFramePayload (New t (map WithMaxFramePayloadBytes ns))"
  unfolding New_def by (rule fold_WithMaxFramePayloadBytes_pos) simp

lemmas wire_eval = wire_frame_def frame_header_def PutUint16_def PutUint32_def PutUint64_def
  conn_with_def idle_transport_def

lemmas read_eval = ReadNext_def readFrame_def decodeFrameFrom_def ReadFull_def Uint16_def
  Uint32_def Uint64_def isKnownType_def isAuthType_def Conn_Close_def Close_def
  isProtocolErr_def Let_def reassemble.simps


lemma cont_flags_replicate: "cont_flags k = replicate (k - 1) 0 @ [flagEnd]"
  by (simp add: cont_flags_def)

text \<open>
  C7. A valid message is emitted as the pieces of its logical payload (for a payload
  message the envelope followed by the data), each of at most the configured maximum
  and in order: one frame with \<open>START|END\<close> when the payload fits in one frame, otherwise
  a first frame with \<open>START\<close>, middle frames with no flag and a last frame with
  \<open>END\<close>.
\<close>

theorem Send_flag_discipline:
  assumes v: "valid_message m" and w: "wr_left (nc c) = None"
    and mx: "0 < maxFramePayload c" "Type m = TypeMessagePayload \<longrightarrow> 4 \<le> maxFramePayload c"
  shows "let cs = chunks (nat (maxFramePayload c)) (message_bytes m);
             fls = frame_flags (length cs)
         in Send cx m c =
              Some (c\<lparr>nc := (nc c)\<lparr>wr_buf := wr_buf (nc c) @
                       concat (map (wire_frame (Type m) (StreamID m)) (zip fls cs))\<rparr>\<rparr>, None)
            \<and> length fls = length cs
            \<and> concat cs = message_bytes m
            \<and> (\<forall>ch\<in>set cs. int (length ch) \<le> maxFramePayload c)
            \<and> (int (length (message_bytes m)) \<le> maxFramePayload c \<longrightarrow>
                 cs = [message_bytes m] \<and> fls = [startEndFlags])
            \<and> (maxFramePayload c < int (length (message_bytes m)) \<longrightarrow>
                 2 \<le> length cs \<and> fls = flagStart # replicate (length cs - 2) 0 @ [flagEnd])"
proof -
  let ?n = "nat (maxFramePayload c)"
  let ?cs = "chunks ?n (message_bytes m)"
  have n: "0 < ?n" using mx(1) by simp
  have a: "Send cx m c =
              Some (c\<lparr>nc := (nc c)\<lparr>wr_buf := wr_buf (nc c) @
                 concat (map (wire_frame (Type m) (StreamID m)) (zip (frame_flags (length ?cs)) ?cs))\<rparr>\<rparr>, None)"
    by (rule Send_ok [OF v w mx])
  have b: "length (frame_flags (length ?cs)) = length ?cs"
    by (cases ?cs) (simp_all add: frame_flags_def)
  have d: "\<forall>ch\<in>set ?cs. int (length ch) \<le> maxFramePayload c"
  proof
    fix ch assume "ch \<in> set ?cs"
    then have "length ch \<le> ?n" by (rule chunks_length_le [OF n])
    then show "int (length ch) \<le> maxFramePayload c" using mx(1) by linarith
  qed
  have e: "int (length (message_bytes m)) \<le> maxFramePayload c \<longrightarrow>
                 ?cs = [message_bytes m] \<and> frame_flags (length ?cs) = [startEndFlags]"
  proof
    assume "int (length (message_bytes m)) \<le> maxFramePayload c"
    then have "length (message_bytes m) \<le> ?n" by linarith
    then show "?cs = [message_bytes m] \<and> frame_flags (length ?cs) = [startEndFlags]"
      by (simp add: chunks_fits)
  qed
  have f: "maxFramePayload c < int (length (message_bytes m)) \<longrightarrow>
       2 \<le> length ?cs \<and> frame_flags (length ?cs) = flagStart # replicate (length ?cs - 2) 0 @ [flagEnd]"
  proof
    assume "maxFramePayload c < int (length (message_bytes m))"
    then have "?n < length (message_bytes m)" using mx(1) by linarith
    then have two: "2 \<le> length ?cs" by (rule chunks_many [OF n])
    then have "frame_flags (length ?cs) = flagStart # replicate (length ?cs - 2) 0 @ [flagEnd]"
      by (simp add: frame_flags_def cont_flags_replicate numeral_2_eq_2)
    with two show "2 \<le> length ?cs \<and>
        frame_flags (length ?cs) = flagStart # replicate (length ?cs - 2) 0 @ [flagEnd]" ..
  qed
  show ?thesis
    unfolding Let_def using a b d e f concat_chunks by blast
qed


theorem Send_flag_discipline_witness:
  "Send None \<lparr>Type = TypeMessagePayload, StreamID = 999, Payload = [], Kind = 2, Format = 0,
               Data = [1, 2, 3, 4, 5, 6]\<rparr> (conn_with [] 8)
   = Some (\<lparr>nc = idle_transport\<lparr>wr_buf :=
              [0x53, 0x42, 1, 0x10, 0, 1, 0, 0, 0, 0, 0, 0, 3, 0xE7, 0, 0, 0, 8,
               2, 0, 0, 0, 1, 2, 3, 4,
               0x53, 0x42, 1, 0x10, 0, 2, 0, 0, 0, 0, 0, 0, 3, 0xE7, 0, 0, 0, 2,
               5, 6]\<rparr>, maxFramePayload = 8\<rparr>, None)"
  using Send_flag_discipline [of "\<lparr>Type = TypeMessagePayload, StreamID = 999, Payload = [],
      Kind = 2, Format = 0, Data = [1, 2, 3, 4, 5, 6]\<rparr>" "conn_with [] 8" None]
  by (simp add: valid_message_def isAuthType_def message_bytes_def chunks.simps
      frame_flags_def cont_flags_def wire_eval)

text \<open>
  C3, for \<open>Send\<close>. The result of \<open>Send\<close> does not depend on the context: a write that
  fails while the context is already cancelled is reported with the error of the
  transport, not with the cancellation cause.
\<close>

theorem Send_ignores_context: "Send cx m c = Send None m c"
  by (simp add: Send_def)

theorem Send_ignores_context_witness:
  "Send (Some Canceled)
     \<lparr>Type = TypeAuthBegin, StreamID = 0, Payload = [0x41], Kind = 0, Format = 0, Data = []\<rparr>
     \<lparr>nc = idle_transport\<lparr>wr_left := Some 0, wr_err := ErrTimeout\<rparr>, maxFramePayload = 16\<rparr>
   = Some (\<lparr>nc = idle_transport\<lparr>wr_left := Some 0, wr_err := ErrTimeout\<rparr>,
             maxFramePayload = 16\<rparr>, Some (IOError ErrTimeout))"
  using Send_ignores_context [of "Some Canceled"
     "\<lparr>Type = TypeAuthBegin, StreamID = 0, Payload = [0x41], Kind = 0, Format = 0, Data = []\<rparr>"
     "\<lparr>nc = idle_transport\<lparr>wr_left := Some 0, wr_err := ErrTimeout\<rparr>, maxFramePayload = 16\<rparr>"]
  by (simp add: Send_def isAuthType_def sendWithFragmentation_def encodeFrameTo_def Write_def
      idle_transport_def)

text \<open>
  C1, at a maximum of \<open>2^32\<close> on both connections: \<open>Send\<close> emits the one frame of an
  \<open>auth_begin\<close> message with a payload of one byte, and \<open>ReadNext\<close> on these bytes
  closes the connection and fails with \<open>ErrFrameTooLarge\<close>, since \<open>uint32(maxPayload)\<close>
  is 0. The round trip itself is \<open>Send_ReadNext_roundtrip\<close>, for the maxima below \<open>2^32\<close>.
\<close>

theorem roundtrip_fails_at_2_32:
  "New idle_transport [WithMaxFramePayloadBytes 4294967296] = conn_with [] 4294967296
   \<and> Send None
     \<lparr>Type = TypeAuthBegin, StreamID = 0, Payload = [0x41], Kind = 0, Format = 0, Data = []\<rparr>
     (conn_with [] 4294967296)
   = Some (\<lparr>nc = idle_transport\<lparr>wr_buf :=
              [0x53, 0x42, 1, 1, 0, 3, 0, 0, 0, 0, 0, 0, 0, 0, 0, 0, 0, 1, 0x41]\<rparr>,
            maxFramePayload = 4294967296\<rparr>, None)
   \<and> ReadNext None
        (conn_with [0x53, 0x42, 1, 1, 0, 3, 0, 0, 0, 0, 0, 0, 0, 0, 0, 0, 0, 1, 0x41] 4294967296)
   = (\<lparr>nc = idle_transport\<lparr>rd_buf := [0x41], closed := True\<rparr>, maxFramePayload = 4294967296\<rparr>,
      Inl (Join ErrProtocol ErrFrameTooLarge))"
  by (simp add: New_def WithMaxFramePayloadBytes_def Send_def isAuthType_def
      sendWithFragmentation_def encodeFrameTo_def Write_def wire_eval read_eval)

theorem roundtrip_fails_at_2_32_witness:
  "snd (ReadNext None
        (conn_with [0x53, 0x42, 1, 1, 0, 3, 0, 0, 0, 0, 0, 0, 0, 0, 0, 0, 0, 1, 0x41] 4294967296))
   \<noteq> Inr \<lparr>Type = TypeAuthBegin, StreamID = 0, Payload = [0x41], Kind = 0, Format = 0, Data = []\<rparr>"
  using roundtrip_fails_at_2_32 by simp

section \<open>Reception: fragmentation and envelope errors\<close>

lemma reassemble_violation_step:
  assumes "readFrame cx c = (c1, Inr bad)" "violates_continuation opener bad"
  shows "reassemble cx (f_typ opener) (f_streamID opener) c buf False
         = (Conn_Close c1, Inl (Join ErrProtocol ErrFragmentation))"
  using assms by (subst reassemble.simps) (auto simp add: violates_continuation_def)

lemma read_frames_Suc_Inr:
  "read_frames cx c (Suc n) = (c2, Inr (f # fs)) \<Longrightarrow>
   \<exists>c1. readFrame cx c = (c1, Inr f) \<and> read_frames cx c1 n = (c2, Inr fs)"
  by (auto split: prod.splits sum.splits)

lemma read_frames_one:
  "read_frames cx c (Suc 0) = (c2, Inr [f]) \<Longrightarrow> readFrame cx c = (c2, Inr f)"
  by (auto split: prod.splits sum.splits)

lemma reassemble_violation:
  assumes "read_frames cx c (Suc (length mids)) = (c2, Inr (mids @ [bad]))"
    "list_all (continues opener) mids" "violates_continuation opener bad"
  shows "reassemble cx (f_typ opener) (f_streamID opener) c buf False
         = (Conn_Close c2, Inl (Join ErrProtocol ErrFragmentation))"
  using assms
proof (induction mids arbitrary: c buf)
  case Nil
  then have "readFrame cx c = (c2, Inr bad)" by (simp add: read_frames_one)
  then show ?case using Nil(3) by (rule reassemble_violation_step)
next
  case (Cons f fs)
  from Cons(2) obtain c1 where rf: "readFrame cx c = (c1, Inr f)"
    and rest: "read_frames cx c1 (Suc (length fs)) = (c2, Inr (fs @ [bad]))"
    using read_frames_Suc_Inr [of cx c "Suc (length fs)" c2 f "fs @ [bad]"] by auto
  have fs: "list_all (continues opener) fs" and "continues opener f"
    using Cons(3) by simp_all
  then have f: "f_typ f = f_typ opener" "f_streamID f = f_streamID opener" "f_flags f = 0"
    by (simp_all add: continues_def)
  have "reassemble cx (f_typ opener) (f_streamID opener) c buf False
      = reassemble cx (f_typ opener) (f_streamID opener) c1 (buf @ f_payload f) False"
    using reassemble_step [OF rf f(1) f(2), of buf] f(3) by simp
  then show ?case using Cons(1) [OF rest fs Cons(4)] by simp
qed

lemma ReadNext_opened:
  assumes rf: "readFrame cx c = (c1, Inr opener)" and op: "opens_reassembly opener"
  shows "\<exists>buf. ReadNext cx c =
     (case reassemble cx (f_typ opener) (f_streamID opener) c1 buf False of
        (c2, Inl err) \<Rightarrow> (c2, Inl err)
      | (c2, Inr bs) \<Rightarrow>
          (c2, Inr (if f_typ opener = TypeMessagePayload
                    then \<lparr>Type = TypeMessagePayload, StreamID = f_streamID opener, Payload = [],
                          Kind = f_payload opener ! 0, Format = 0, Data = bs\<rparr>
                    else \<lparr>Type = f_typ opener, StreamID = 0, Payload = bs, Kind = 0,
                          Format = 0, Data = []\<rparr>)))"
proof (cases "f_typ opener = TypeMessagePayload")
  case True
  with op have e: "f_flags opener AND flagStart \<noteq> 0" "f_flags opener AND flagEnd = 0"
    "f_streamID opener \<noteq> 0" "4 \<le> length (f_payload opener)"
    "f_payload opener ! 2 = 0" "f_payload opener ! 3 = 0" "f_payload opener ! 1 = 0"
    "f_payload opener ! 0 \<in> {PayloadKindRequest, PayloadKindResponse, PayloadKindOneway}"
    by (simp_all add: opens_reassembly_def)
  show ?thesis
    using True e(2)
    by (intro exI [of _ "drop 4 (f_payload opener)"])
       (simp add: ReadNext_payload [OF rf e(1) True e(3-)] split: prod.splits sum.splits)
next
  case False
  with op have e: "f_flags opener AND flagStart \<noteq> 0" "f_flags opener AND flagEnd = 0"
    "isAuthType (f_typ opener)" "f_streamID opener = 0"
    by (simp_all add: opens_reassembly_def)
  show ?thesis
    using False e(2,4)
    by (intro exI [of _ "f_payload opener"])
       (simp add: ReadNext_auth [OF rf e(1) e(3) e(4)] split: prod.splits sum.splits)
qed

text \<open>
  C5. When the first frame read lacks \<open>START\<close>, \<open>ReadNext\<close> closes the connection and
  fails with a fragmentation error; and so it does when, after an accepted opening frame
  and any number of accepted continuation frames, the next frame read has another type
  or stream id, has \<open>START\<close> set, or has flags other than 0 and \<open>END\<close>.
\<close>

theorem ReadNext_fragmentation_errors:
  "(readFrame cx c = (c1, Inr fr) \<and> f_flags fr AND flagStart = 0 \<longrightarrow>
      ReadNext cx c = (Conn_Close c1, Inl (Join ErrProtocol ErrFragmentation))
      \<and> closed (nc (Conn_Close c1)))
   \<and> (read_frames cx c (Suc (Suc (length mids))) = (c2, Inr (opener # mids @ [bad]))
       \<and> opens_reassembly opener \<and> list_all (continues opener) mids
       \<and> violates_continuation opener bad \<longrightarrow>
      ReadNext cx c = (Conn_Close c2, Inl (Join ErrProtocol ErrFragmentation))
      \<and> closed (nc (Conn_Close c2)))"
proof (intro conjI impI; (elim conjE)?)
  assume "readFrame cx c = (c1, Inr fr)" "f_flags fr AND flagStart = 0"
  then show "ReadNext cx c = (Conn_Close c1, Inl (Join ErrProtocol ErrFragmentation))"
    by (rule ReadNext_no_start)
next
  show "closed (nc (Conn_Close c1))" by (simp add: Conn_Close_def Close_def)
next
  show "closed (nc (Conn_Close c2))" by (simp add: Conn_Close_def Close_def)
next
  assume rd: "read_frames cx c (Suc (Suc (length mids))) = (c2, Inr (opener # mids @ [bad]))"
    and op: "opens_reassembly opener" and mids: "list_all (continues opener) mids"
    and bad: "violates_continuation opener bad"
  from rd obtain c1 where rf: "readFrame cx c = (c1, Inr opener)"
    and rest: "read_frames cx c1 (Suc (length mids)) = (c2, Inr (mids @ [bad]))"
    using read_frames_Suc_Inr [of cx c "Suc (length mids)" c2 opener "mids @ [bad]"] by auto
  from ReadNext_opened [OF rf op] obtain buf where
    "ReadNext cx c =
     (case reassemble cx (f_typ opener) (f_streamID opener) c1 buf False of
        (c2, Inl err) \<Rightarrow> (c2, Inl err)
      | (c2, Inr bs) \<Rightarrow>
          (c2, Inr (if f_typ opener = TypeMessagePayload
                    then \<lparr>Type = TypeMessagePayload, StreamID = f_streamID opener, Payload = [],
                          Kind = f_payload opener ! 0, Format = 0, Data = bs\<rparr>
                    else \<lparr>Type = f_typ opener, StreamID = 0, Payload = bs, Kind = 0,
                          Format = 0, Data = []\<rparr>)))" ..
  then show "ReadNext cx c = (Conn_Close c2, Inl (Join ErrProtocol ErrFragmentation))"
    by (simp add: reassemble_violation [OF rest mids bad])
qed

lemma ucast_byte_0: "((ucast a :: 16 word) = 0) = (a = 0)" for a :: byte
proof
  assume z: "(ucast a :: 16 word) = 0"
  show "a = 0"
  proof (rule bit_word_eqI)
    fix n assume n: "n < LENGTH(8)"
    have "bit (ucast a :: 16 word) n = bit a n" using n by (simp add: bit_simps)
    then show "bit a n = bit (0::byte) n" using z by simp
  qed
next
  assume "a = 0" then show "(ucast a :: 16 word) = 0" by simp
qed

lemma push_byte_0: "(push_bit 8 (ucast a :: 16 word) = 0) = (a = 0)" for a :: byte
proof
  assume z: "push_bit 8 (ucast a :: 16 word) = 0"
  show "a = 0"
  proof (rule bit_word_eqI)
    fix n assume n: "n < LENGTH(8)"
    have "bit (push_bit 8 (ucast a :: 16 word)) (n + 8) = bit a n"
      using n by (simp add: bit_simps)
    then show "bit a n = bit (0::byte) n" using z by simp
  qed
next
  assume "a = 0" then show "push_bit 8 (ucast a :: 16 word) = 0" by simp
qed

lemma reserved_zero_iff:
  "((push_bit 8 (ucast a) OR ucast b :: 16 word) = 0) = (a = 0 \<and> b = 0)" for a b :: byte
  by (simp add: or_eq_0_iff ucast_byte_0 push_byte_0)

text \<open>
  C6, as amended. For a payload frame that opens a message (\<open>START\<close> set) and has a
  stream id other than 0, a payload shorter than 4 bytes, a reserved field other than 0,
  a format other than opaque bytes or a kind outside request, response and oneway makes
  \<open>ReadNext\<close> close the connection and fail with an envelope error.
\<close>

theorem ReadNext_envelope_errors:
  assumes rf: "readFrame cx c = (c1, Inr fr)" and ty: "f_typ fr = TypeMessagePayload"
    and st: "f_flags fr AND flagStart \<noteq> 0" and sid: "f_streamID fr \<noteq> 0"
    and bad: "length (f_payload fr) < 4
       \<or> f_payload fr ! 2 \<noteq> 0 \<or> f_payload fr ! 3 \<noteq> 0
       \<or> f_payload fr ! 1 \<noteq> PayloadFormatOpaqueBytes
       \<or> f_payload fr ! 0 \<notin> {PayloadKindRequest, PayloadKindResponse, PayloadKindOneway}"
  shows "ReadNext cx c = (Conn_Close c1, Inl (Join ErrProtocol ErrEnvelope))
         \<and> closed (nc (Conn_Close c1))"
proof -
  have na: "\<not> isAuthType TypeMessagePayload" by (simp add: isAuthType_def)
  have "ReadNext cx c = (Conn_Close c1, Inl (Join ErrProtocol ErrEnvelope))"
    using rf ty st sid bad na
    by (auto simp add: ReadNext_def Let_def reserved_zero_iff)
  then show ?thesis by (simp add: Conn_Close_def Close_def)
qed


theorem ReadNext_envelope_errors_witness:
  "ReadNext None
     (conn_with [0x53, 0x42, 1, 0x10, 0, 3, 0, 0, 0, 0, 0, 0, 0, 7, 0, 0, 0, 3, 1, 0, 0] 16)
   = (Conn_Close (conn_with [] 16), Inl (Join ErrProtocol ErrEnvelope))"
proof -
  have rf: "readFrame None
     (conn_with [0x53, 0x42, 1, 0x10, 0, 3, 0, 0, 0, 0, 0, 0, 0, 7, 0, 0, 0, 3, 1, 0, 0] 16)
     = (conn_with [] 16,
        Inr \<lparr>f_typ = TypeMessagePayload, f_flags = startEndFlags, f_streamID = 7,
              f_payload = [1, 0, 0], f_payloadLn = 3\<rparr>)"
    by (simp add: read_eval wire_eval)
  show ?thesis
    using ReadNext_envelope_errors [OF rf] by simp
qed

theorem ReadNext_envelope_stream_id_first:
  "readFrame None
     (conn_with [0x53, 0x42, 1, 0x10, 0, 3, 0, 0, 0, 0, 0, 0, 0, 0, 0, 0, 0, 0] 16)
     = (conn_with [] 16,
        Inr \<lparr>f_typ = TypeMessagePayload, f_flags = startEndFlags, f_streamID = 0,
              f_payload = [], f_payloadLn = 0\<rparr>)
   \<and> ReadNext None
     (conn_with [0x53, 0x42, 1, 0x10, 0, 3, 0, 0, 0, 0, 0, 0, 0, 0, 0, 0, 0, 0] 16)
     = (Conn_Close (conn_with [] 16), Inl (Join ErrProtocol ErrInvalidStreamID))
   \<and> \<not> errors_Is (Join ErrProtocol ErrInvalidStreamID) ErrEnvelope"
  by (simp add: read_eval wire_eval)

theorem ReadNext_fragmentation_errors_witness:
  "ReadNext None
     (conn_with [0x53, 0x42, 1, 1, 0, 2, 0, 0, 0, 0, 0, 0, 0, 0, 0, 0, 0, 1, 0x41] 16)
   = (Conn_Close (conn_with [] 16), Inl (Join ErrProtocol ErrFragmentation))
   \<and> ReadNext None
     (conn_with [0x53, 0x42, 1, 1, 0, 1, 0, 0, 0, 0, 0, 0, 0, 0, 0, 0, 0, 1, 0x41,
                 0x53, 0x42, 1, 1, 0, 0, 0, 0, 0, 0, 0, 0, 0, 0, 0, 0, 0, 1, 0x42,
                 0x53, 0x42, 1, 2, 0, 2, 0, 0, 0, 0, 0, 0, 0, 0, 0, 0, 0, 1, 0x43] 16)
   = (Conn_Close (conn_with [] 16), Inl (Join ErrProtocol ErrFragmentation))"
proof -
  have a: "readFrame None
     (conn_with [0x53, 0x42, 1, 1, 0, 2, 0, 0, 0, 0, 0, 0, 0, 0, 0, 0, 0, 1, 0x41] 16)
     = (conn_with [] 16, Inr \<lparr>f_typ = TypeAuthBegin, f_flags = flagEnd, f_streamID = 0,
              f_payload = [0x41], f_payloadLn = 1\<rparr>)"
    by (simp add: read_eval wire_eval)
  have b: "read_frames None
     (conn_with [0x53, 0x42, 1, 1, 0, 1, 0, 0, 0, 0, 0, 0, 0, 0, 0, 0, 0, 1, 0x41,
                 0x53, 0x42, 1, 1, 0, 0, 0, 0, 0, 0, 0, 0, 0, 0, 0, 0, 0, 1, 0x42,
                 0x53, 0x42, 1, 2, 0, 2, 0, 0, 0, 0, 0, 0, 0, 0, 0, 0, 0, 1, 0x43] 16)
     (Suc (Suc (length [\<lparr>f_typ = TypeAuthBegin, f_flags = 0, f_streamID = 0,
              f_payload = [0x42], f_payloadLn = 1\<rparr>])))
     = (conn_with [] 16,
        Inr (\<lparr>f_typ = TypeAuthBegin, f_flags = flagStart, f_streamID = 0,
              f_payload = [0x41], f_payloadLn = 1\<rparr> #
             [\<lparr>f_typ = TypeAuthBegin, f_flags = 0, f_streamID = 0,
              f_payload = [0x42], f_payloadLn = 1\<rparr>] @
             [\<lparr>f_typ = TypeAuthChallenge, f_flags = flagEnd, f_streamID = 0,
              f_payload = [0x43], f_payloadLn = 1\<rparr>]))"
    by (simp add: read_eval wire_eval)
  have c: "opens_reassembly \<lparr>f_typ = TypeAuthBegin, f_flags = flagStart, f_streamID = 0,
              f_payload = [0x41], f_payloadLn = 1\<rparr>"
    by (simp add: opens_reassembly_def isAuthType_def)
  have d: "list_all (continues \<lparr>f_typ = TypeAuthBegin, f_flags = flagStart, f_streamID = 0,
              f_payload = [0x41], f_payloadLn = 1\<rparr>)
            [\<lparr>f_typ = TypeAuthBegin, f_flags = 0, f_streamID = 0,
              f_payload = [0x42], f_payloadLn = 1\<rparr>]"
    by (simp add: continues_def)
  have e: "violates_continuation \<lparr>f_typ = TypeAuthBegin, f_flags = flagStart, f_streamID = 0,
              f_payload = [0x41], f_payloadLn = 1\<rparr>
            \<lparr>f_typ = TypeAuthChallenge, f_flags = flagEnd, f_streamID = 0,
              f_payload = [0x43], f_payloadLn = 1\<rparr>"
    by (simp add: violates_continuation_def)
  from ReadNext_fragmentation_errors [THEN conjunct1, rule_format, OF conjI, OF a]
       ReadNext_fragmentation_errors [THEN conjunct2, rule_format, OF conjI, OF b conjI,
          OF c conjI, OF d e]
  show ?thesis by simp
qed

section \<open>Cancellation on the receive path\<close>

lemma ReadFull_closed: "ReadFull r n = (r', x) \<Longrightarrow> closed r' = closed r"
  by (auto simp add: ReadFull_def split: if_splits)

lemma ReadFull_error: "ReadFull r n = (r', Inl e) \<Longrightarrow> read_failure e"
  by (auto simp add: ReadFull_def split: if_splits)

lemma decodeFrameFrom_closed: "decodeFrameFrom r mx = (r', x) \<Longrightarrow> closed r' = closed r"
  by (auto simp add: decodeFrameFrom_def Let_def dest: ReadFull_closed
      split: prod.splits sum.splits if_splits)

lemma decodeFrameFrom_error: "decodeFrameFrom r mx = (r', Inl e) \<Longrightarrow> read_failure e"
  by (auto simp add: decodeFrameFrom_def Let_def dest: ReadFull_error
      split: prod.splits sum.splits if_splits)

text \<open>
  On the receive path a failed frame read is reported with the cancellation cause when
  the context is done, and with the error of the read otherwise.
\<close>

lemma readFrame_error:
  assumes "decodeFrameFrom (nc c) (maxFramePayload c) = (r, Inl e)"
  shows "snd (readFrame cx c) = Inl (case cx of Some cause \<Rightarrow> cause | None \<Rightarrow> e)"
  using assms by (simp add: readFrame_def split: option.splits)

lemma readFrame_None_Inr:
  "readFrame None c = (c1, Inr fr) \<Longrightarrow> readFrame (Some cause) c = (c1, Inr fr)"
  by (auto simp add: readFrame_def split: prod.splits sum.splits if_splits)

lemma readFrame_Inr_closed:
  "readFrame cx c = (c1, Inr fr) \<Longrightarrow> closed (nc c1) = closed (nc c)"
  by (auto simp add: readFrame_def dest: decodeFrameFrom_closed
      split: prod.splits sum.splits if_splits option.splits)

lemma readFrame_None_Inl:
  assumes "readFrame None c = (c1, Inl e)"
  shows "read_failure e"
    and "readFrame (Some cause) c = (c1\<lparr>nc := (nc c1)\<lparr>closed := closed (nc c)\<rparr>\<rparr>, Inl cause)"
    and "isProtocolErr e \<Longrightarrow> closed (nc c1)"
proof -
  obtain r x where d: "decodeFrameFrom (nc c) (maxFramePayload c) = (r, x)" by fastforce
  with assms have x: "x = Inl e"
    by (auto simp add: readFrame_def split: sum.splits if_splits)
  from d x show "read_failure e" by (auto dest: decodeFrameFrom_error)
  have cl: "closed r = closed (nc c)" using d by (rule decodeFrameFrom_closed)
  have c1: "c1 = (if isProtocolErr e then c\<lparr>nc := Close r\<rparr> else c\<lparr>nc := r\<rparr>)"
    using assms d x by (auto simp add: readFrame_def)
  show "readFrame (Some cause) c = (c1\<lparr>nc := (nc c1)\<lparr>closed := closed (nc c)\<rparr>\<rparr>, Inl cause)"
    using d x cl [symmetric] by (simp add: readFrame_def c1 Close_def)
  show "isProtocolErr e \<Longrightarrow> closed (nc c1)" by (simp add: c1 Close_def)
qed

lemma reassemble_cancelled:
  assumes "reassemble None ty sid c buf d = (c1, Inl e)" "read_failure e"
  shows "reassemble (Some cause) ty sid c buf d
           = (c1\<lparr>nc := (nc c1)\<lparr>closed := closed (nc c)\<rparr>\<rparr>, Inl cause)
         \<and> (isProtocolErr e \<longrightarrow> closed (nc c1))"
  using assms
proof (induction "None :: ctx" ty sid c buf d rule: reassemble.induct)
  case (1 ty sid c buf d)
  from "1.prems"(1) have nd: "\<not> d" by (cases d) simp_all
  obtain x y where rf: "readFrame None c = (x, y)" by fastforce
  show ?case
  proof (cases y)
    case (Inl e')
    with rf "1.prems"(1) nd have e: "e' = e" "x = c1"
      by (simp_all add: reassemble.simps [of None])
    from rf Inl e have rf': "readFrame None c = (c1, Inl e)" by simp
    from readFrame_None_Inl(2) [OF rf', of cause] readFrame_None_Inl(3) [OF rf'] nd
    show ?thesis by (simp add: reassemble.simps [of "Some cause"])
  next
    case (Inr b)
    have rs: "readFrame (Some cause) c = (x, Inr b)"
      using rf unfolding Inr by (rule readFrame_None_Inr)
    have cl: "closed (nc x) = closed (nc c)"
      using rf unfolding Inr by (rule readFrame_Inr_closed)
    have ok: "\<not> (f_typ b \<noteq> ty \<or> f_streamID b \<noteq> sid)" "\<not> f_flags b AND flagStart \<noteq> 0"
      "\<not> (f_flags b \<noteq> 0 \<and> f_flags b \<noteq> flagEnd)"
      using "1.prems" rf Inr nd
      by (auto simp add: reassemble.simps [of None ty sid c] split: if_splits)
    have rec: "reassemble None ty sid x (buf @ f_payload b) (f_flags b AND flagEnd \<noteq> 0) = (c1, Inl e)"
      using "1.prems" rf Inr nd
      by (auto simp add: reassemble.simps [of None ty sid c] split: if_splits)
    have ih: "reassemble (Some cause) ty sid x (buf @ f_payload b) (f_flags b AND flagEnd \<noteq> 0)
           = (c1\<lparr>nc := (nc c1)\<lparr>closed := closed (nc x)\<rparr>\<rparr>, Inl cause)
         \<and> (isProtocolErr e \<longrightarrow> closed (nc c1))"
      using "1.hyps" [OF nd rf [symmetric] Inr ok rec "1.prems"(2)] .
    show ?thesis
      using ih rs nd ok cl
      by (auto simp add: reassemble.simps [of "Some cause" ty sid c])
  qed
qed


lemma readFrame_known: "readFrame cx c = (x, Inr fr) \<Longrightarrow> isKnownType (f_typ fr)"
  by (auto simp add: readFrame_def decodeFrameFrom_def Let_def
      split: prod.splits sum.splits if_splits option.splits)

lemma ReadNext_ping_cases:
  "readFrame cx c = (x, Inr fr) \<Longrightarrow> f_flags fr AND flagStart \<noteq> 0
   \<Longrightarrow> f_typ fr = TypePing \<or> f_typ fr = TypePong
   \<Longrightarrow> (\<exists>m. ReadNext cx c = (x, Inr m)) \<or>
       ReadNext cx c = (Conn_Close x, Inl (Wrapf ErrProtocol
                            ''ping/pong must have stream_id=0, empty payload, START|END''))"
  by (simp add: ReadNext_def)

lemma ReadNext_auth_stream_id:
  assumes "readFrame cx c = (x, Inr fr)" "f_flags fr AND flagStart \<noteq> 0"
    "isAuthType (f_typ fr)" "f_streamID fr \<noteq> 0"
  shows "ReadNext cx c = (Conn_Close x, Inl (Join ErrProtocol ErrInvalidStreamID))"
  using assms isAuthType_not_others [OF assms(3)] by (simp add: ReadNext_def)

lemma ReadNext_payload_stream_id:
  assumes "readFrame cx c = (x, Inr fr)" "f_flags fr AND flagStart \<noteq> 0"
    "f_typ fr = TypeMessagePayload" "f_streamID fr = 0"
  shows "ReadNext cx c = (Conn_Close x, Inl (Join ErrProtocol ErrInvalidStreamID))"
  using assms by (simp add: ReadNext_def isAuthType_def)

lemma ReadNext_bad_envelope:
  assumes "readFrame cx c = (x, Inr fr)" "f_flags fr AND flagStart \<noteq> 0"
    "f_typ fr = TypeMessagePayload" "f_streamID fr \<noteq> 0"
    "\<not> (4 \<le> length (f_payload fr) \<and> f_payload fr ! 2 = 0 \<and> f_payload fr ! 3 = 0
        \<and> f_payload fr ! 1 = 0
        \<and> f_payload fr ! 0 \<in> {PayloadKindRequest, PayloadKindResponse, PayloadKindOneway})"
  shows "ReadNext cx c = (Conn_Close x, Inl (Join ErrProtocol ErrEnvelope))"
proof -
  have na: "\<not> isAuthType TypeMessagePayload" by (simp add: isAuthType_def)
  show ?thesis
    using assms na by (auto simp add: ReadNext_def Let_def reserved_zero_iff)
qed

lemma isKnownType_cases:
  "isKnownType t \<Longrightarrow> t = TypePing \<or> t = TypePong \<or> isAuthType t \<or> t = TypeMessagePayload"
  by (auto simp add: isKnownType_def isAuthType_def)

lemma ReadNext_read_failure_cases:
  assumes rn: "readFrame None c = (x, Inr fr)" and res: "ReadNext None c = (c1, Inl e)"
    and rfail: "read_failure e"
  shows "f_flags fr AND flagStart \<noteq> 0 \<and>
     ((isAuthType (f_typ fr) \<and> f_streamID fr = 0) \<or>
      (f_typ fr = TypeMessagePayload \<and> f_streamID fr \<noteq> 0
       \<and> 4 \<le> length (f_payload fr) \<and> f_payload fr ! 2 = 0 \<and> f_payload fr ! 3 = 0
       \<and> f_payload fr ! 1 = 0
       \<and> f_payload fr ! 0 \<in> {PayloadKindRequest, PayloadKindResponse, PayloadKindOneway}))"
proof -
  have st: "f_flags fr AND flagStart \<noteq> 0"
  proof
    assume "f_flags fr AND flagStart = 0"
    from ReadNext_no_start [OF rn this] res rfail show False by simp
  qed
  from isKnownType_cases [OF readFrame_known [OF rn]]
  consider (ping) "f_typ fr = TypePing \<or> f_typ fr = TypePong"
    | (auth) "isAuthType (f_typ fr)" | (pay) "f_typ fr = TypeMessagePayload" by blast
  then have "(isAuthType (f_typ fr) \<and> f_streamID fr = 0) \<or>
      (f_typ fr = TypeMessagePayload \<and> f_streamID fr \<noteq> 0
       \<and> 4 \<le> length (f_payload fr) \<and> f_payload fr ! 2 = 0 \<and> f_payload fr ! 3 = 0
       \<and> f_payload fr ! 1 = 0
       \<and> f_payload fr ! 0 \<in> {PayloadKindRequest, PayloadKindResponse, PayloadKindOneway})"
  proof cases
    case ping
    from ReadNext_ping_cases [OF rn st ping] res rfail have False by auto
    then show ?thesis ..
  next
    case auth
    have "f_streamID fr = 0"
    proof (rule ccontr)
      assume "f_streamID fr \<noteq> 0"
      from ReadNext_auth_stream_id [OF rn st auth this] res rfail show False by simp
    qed
    with auth show ?thesis by simp
  next
    case pay
    have sid: "f_streamID fr \<noteq> 0"
    proof
      assume "f_streamID fr = 0"
      from ReadNext_payload_stream_id [OF rn st pay this] res rfail show False by simp
    qed
    have "4 \<le> length (f_payload fr) \<and> f_payload fr ! 2 = 0 \<and> f_payload fr ! 3 = 0
        \<and> f_payload fr ! 1 = 0
        \<and> f_payload fr ! 0 \<in> {PayloadKindRequest, PayloadKindResponse, PayloadKindOneway}"
    proof (rule ccontr)
      assume "\<not> ?thesis"
      from ReadNext_bad_envelope [OF rn st pay sid this] res rfail show False by simp
    qed
    with pay sid show ?thesis by blast
  qed
  with st show ?thesis ..
qed

text \<open>
  C10. When a call of \<open>ReadNext\<close> fails on a frame read (with an error of the transport
  or a header error, after which a call with a live context closes the connection in
  the protocol case), the same call with a context that is done returns the error of the
  context and leaves the connection as open or closed as it was.
\<close>

theorem ReadNext_cancelled_keeps_open:
  assumes "ReadNext None c = (c1, Inl e)" "read_failure e"
  shows "ReadNext (Some cause) c = (c1\<lparr>nc := (nc c1)\<lparr>closed := closed (nc c)\<rparr>\<rparr>, Inl cause)
         \<and> closed (nc (fst (ReadNext (Some cause) c))) = closed (nc c)
         \<and> (isProtocolErr e \<longrightarrow> closed (nc c1))"
proof -
  obtain x y where rf: "readFrame None c = (x, y)" by fastforce
  have main: "ReadNext (Some cause) c = (c1\<lparr>nc := (nc c1)\<lparr>closed := closed (nc c)\<rparr>\<rparr>, Inl cause)
         \<and> (isProtocolErr e \<longrightarrow> closed (nc c1))"
  proof (cases y)
    case (Inl e')
    with rf assms(1) have rf': "readFrame None c = (c1, Inl e)"
      by (simp add: ReadNext_def)
    from readFrame_None_Inl(2) [OF rf', of cause] readFrame_None_Inl(3) [OF rf']
    show ?thesis by (simp add: ReadNext_def)
  next
    case (Inr fr)
    have rn: "readFrame None c = (x, Inr fr)" using rf Inr by simp
    have rs: "readFrame (Some cause) c = (x, Inr fr)"
      using rn by (rule readFrame_None_Inr)
    have cl: "closed (nc x) = closed (nc c)"
      using rn by (rule readFrame_Inr_closed)
    note ra = reassemble_cancelled [OF _ assms(2), where c = x and ?c1.0 = c1 and cause = cause,
        unfolded cl]
    from ReadNext_read_failure_cases [OF rn assms]
    have st: "f_flags fr AND flagStart \<noteq> 0" and
      "(isAuthType (f_typ fr) \<and> f_streamID fr = 0) \<or>
      (f_typ fr = TypeMessagePayload \<and> f_streamID fr \<noteq> 0
       \<and> 4 \<le> length (f_payload fr) \<and> f_payload fr ! 2 = 0 \<and> f_payload fr ! 3 = 0
       \<and> f_payload fr ! 1 = 0
       \<and> f_payload fr ! 0 \<in> {PayloadKindRequest, PayloadKindResponse, PayloadKindOneway})"
      by blast+
    then show ?thesis
    proof (elim disjE conjE)
      assume a: "isAuthType (f_typ fr)" "f_streamID fr = 0"
      from assms(1) have "reassemble None (f_typ fr) 0 x (f_payload fr) (f_flags fr AND flagEnd \<noteq> 0)
          = (c1, Inl e)"
        unfolding ReadNext_auth [OF rn st a] by (auto split: prod.splits sum.splits)
      from ra [OF this] show ?thesis
        unfolding ReadNext_auth [OF rs st a] by simp
    next
      assume p: "f_typ fr = TypeMessagePayload" "f_streamID fr \<noteq> 0"
        "4 \<le> length (f_payload fr)" "f_payload fr ! 2 = 0" "f_payload fr ! 3 = 0"
        "f_payload fr ! 1 = 0"
        "f_payload fr ! 0 \<in> {PayloadKindRequest, PayloadKindResponse, PayloadKindOneway}"
      from assms(1) have "reassemble None TypeMessagePayload (f_streamID fr) x
          (drop 4 (f_payload fr)) (f_flags fr AND flagEnd \<noteq> 0) = (c1, Inl e)"
        unfolding ReadNext_payload [OF rn st p] by (auto split: prod.splits sum.splits)
      from ra [OF this] show ?thesis
        unfolding ReadNext_payload [OF rs st p] by simp
    qed
  qed
  then show ?thesis by simp
qed

theorem ReadNext_cancelled_keeps_open_witness:
  "ReadNext None (conn_with [0, 0, 0, 0, 0, 0, 0, 0, 0, 0, 0, 0, 0, 0, 0, 0, 0, 0] 16)
     = (Conn_Close (conn_with [] 16), Inl (Join ErrProtocol ErrBadMagic))
   \<and> ReadNext (Some Canceled) (conn_with [0, 0, 0, 0, 0, 0, 0, 0, 0, 0, 0, 0, 0, 0, 0, 0, 0, 0] 16)
     = (conn_with [] 16, Inl Canceled)
   \<and> \<not> closed (nc (conn_with [] 16))"
proof -
  have a: "ReadNext None (conn_with [0, 0, 0, 0, 0, 0, 0, 0, 0, 0, 0, 0, 0, 0, 0, 0, 0, 0] 16)
     = (Conn_Close (conn_with [] 16), Inl (Join ErrProtocol ErrBadMagic))"
    by (simp add: read_eval wire_eval)
  have b: "read_failure (Join ErrProtocol ErrBadMagic)" by simp
  from ReadNext_cancelled_keeps_open [OF a b, of Canceled] a
  show ?thesis by (simp add: wire_eval Conn_Close_def Close_def)
qed

section \<open>Properties of the identity derivation\<close>

lemma hextable_all: "list_all (\<lambda>n. hextable ! n = lower_hex_digit n) [0..<16]"
  by code_simp

lemma hextable_nth: "n < 16 \<Longrightarrow> hextable ! n = lower_hex_digit n"
  using hextable_all unfolding list_all_iff set_upt by simp

lemma unat_high_nibble: "unat (drop_bit 4 v) = unat v div 16" for v :: byte
  by (simp add: drop_bit_eq_div unat_div)

lemma unat_low_nibble: "unat (v AND 0x0f) = unat v mod 16" for v :: byte
proof -
  have "v AND 15 = take_bit 4 v" by (simp add: take_bit_eq_mask mask_numeral)
  then show ?thesis by (simp add: take_bit_eq_mod unat_mod)
qed

lemma nibbles_lt: "unat v div 16 < 16" "unat v mod 16 < 16" for v :: byte
proof -
  have "unat v < 256" using unsigned_less [of v] by simp
  then show "unat v div 16 < 16" by simp
  show "unat v mod 16 < 16" by simp
qed

lemma hex_EncodeToString_lower_hex: "hex_EncodeToString bs = lower_hex bs"
  by (induction bs)
     (simp_all add: lower_hex_def unat_high_nibble unat_low_nibble hextable_nth nibbles_lt)

lemma lower_hex_digit_in: "n < 16 \<Longrightarrow> lower_hex_digit n \<in> set ''0123456789abcdef''"
  using hextable_nth [of n] nth_mem [of n hextable] by (simp add: hextable_def)

lemma lower_hex_Cons:
  "lower_hex (v # vs) = lower_hex_digit (unat v div 16) # lower_hex_digit (unat v mod 16) # lower_hex vs"
  by (simp add: lower_hex_def)

lemma lower_hex_chars: "set (lower_hex bs) \<subseteq> set ''0123456789abcdef''"
proof (induction bs)
  case Nil
  show ?case by (simp add: lower_hex_def)
next
  case (Cons v vs)
  show ?case
    unfolding lower_hex_Cons
    using Cons lower_hex_digit_in [OF nibbles_lt(1), of v] lower_hex_digit_in [OF nibbles_lt(2), of v]
    by (simp del: set_simps add: list.set(2))
qed

lemma length_lower_hex: "length (lower_hex bs) = 2 * length bs"
  by (induction bs) (simp_all add: lower_hex_def)

text \<open>
  C9. For a key of 32 bytes \<open>agentIDFromPublicKey\<close> returns the lower-case hexadecimal
  digits, two per byte, of the SHA-256 digest of the key bytes: a function of the key
  alone. For any other length it returns an error.
\<close>

theorem agentIDFromPublicKey_lower_hex_sha256:
  "(length k = 32 \<longrightarrow>
      agentIDFromPublicKey sha k = Inr (lower_hex (sha k))
      \<and> length (lower_hex (sha k)) = 2 * length (sha k)
      \<and> set (lower_hex (sha k)) \<subseteq> set ''0123456789abcdef'')
   \<and> (length k \<noteq> 32 \<longrightarrow> (\<exists>e. agentIDFromPublicKey sha k = Inl e))"
  by (simp add: agentIDFromPublicKey_def hex_EncodeToString_lower_hex lower_hex_chars
      length_lower_hex del: set_simps)

theorem agentIDFromPublicKey_lower_hex_sha256_witness:
  "agentIDFromPublicKey (\<lambda>k. [0xAB, 0x01, 0xF0]) (replicate 32 7) = Inr ''ab01f0''
   \<and> agentIDFromPublicKey (\<lambda>k. [0xAB, 0x01, 0xF0]) [1, 2, 3]
       = Inl (Errorf ''invalid public key length %d'' [''3''])"
proof -
  have a: "lower_hex [0xAB, 0x01, 0xF0] = ''ab01f0''" by code_simp
  have b: "agentIDFromPublicKey (\<lambda>k. [0xAB, 0x01, 0xF0]) [1, 2, 3]
       = Inl (Errorf ''invalid public key length %d'' [''3''])" by code_simp
  from agentIDFromPublicKey_lower_hex_sha256 [of "replicate 32 7" "\<lambda>k. [0xAB, 0x01, 0xF0]"]
       agentIDFromPublicKey_lower_hex_sha256 [of "[1, 2, 3]" "\<lambda>k. [0xAB, 0x01, 0xF0]"]
  show ?thesis using a b by simp
qed

section \<open>Properties of the handshake\<close>

lemma encodeFrameTo_total: "\<exists>w' r. encodeFrameTo w ty fl sid p = (w', r)"
  by fastforce

lemma frag_loop_returns:
  "0 < mx \<Longrightarrow> \<exists>res. frag_loop mx ty sid remaining first w = Some res"
proof (induction "nat mx" remaining arbitrary: w first rule: chunks.induct)
  case (1 p)
  show ?case
  proof (cases "p = []")
    case True
    then show ?thesis by simp
  next
    case False
    let ?chunk = "if int (length p) > mx then take (nat mx) p else p"
    let ?fl = "(if first then flagStart else 0) OR
               (if drop (length ?chunk) p = [] then flagEnd else 0)"
    obtain w1 r where e: "encodeFrameTo w ty ?fl sid ?chunk = (w1, r)" by fastforce
    show ?thesis
    proof (cases r)
      case (Some err)
      then show ?thesis
        using False 1(2) e by (subst frag_loop.simps) (simp add: Let_def)
    next
      case None
      show ?thesis
      proof (cases "int (length p) > mx")
        case True
        then have n0: "\<not> (nat mx = 0 \<or> length p \<le> nat mx)" using 1(2) by linarith
        from 1(1) [OF n0 1(2), of False w1]
        obtain res where "frag_loop mx ty sid (drop (nat mx) p) False w1 = Some res" by blast
        moreover have "min (length p) (nat mx) = nat mx" using True by linarith
        ultimately show ?thesis
          using False 1(2) e None True by (subst frag_loop.simps) (simp add: Let_def)
      next
        case F: False
        then show ?thesis
          using False 1(2) e None by (subst frag_loop.simps) (simp add: Let_def)
      qed
    qed
  qed
qed

lemma sendAuth_returns:
  assumes "0 < maxFramePayload c" "isAuthType ty"
  shows "\<exists>c3 r. sendAuth c ty p = Some (c3, r)"
proof -
  have n: "\<not> (ty = TypePing \<or> ty = TypePong)"
    using isAuthType_not_others [OF assms(2)] by simp
  have "\<exists>c3 r. sendWithFragmentation c ty 0 p = Some (c3, r)"
  proof (cases "int (length p) \<le> maxFramePayload c")
    case True
    then show ?thesis
      by (simp add: sendWithFragmentation_def split: prod.splits)
  next
    case False
    from frag_loop_returns [OF assms(1), of ty 0 p True "nc c"]
    obtain res where "frag_loop (maxFramePayload c) ty 0 p True (nc c) = Some res" by blast
    then show ?thesis
      using False by (cases res) (simp add: sendWithFragmentation_def)
  qed
  then show ?thesis
    using n assms(2) by (simp add: sendAuth_def Send_def)
qed

lemma return_failAuth_fails:
  assumes "0 < maxFramePayload (conn s)"
  shows "handshake_fails env s code message
           (map_option (map_prod id Some) (return_failAuth env s code message))"
proof -
  have a: "isAuthType TypeAuthError" by (simp add: isAuthType_def)
  from sendAuth_returns [OF assms a, of "auth_error_payload env code message"]
  obtain c3 r where "sendAuth (conn s) TypeAuthError (auth_error_payload env code message) = Some (c3, r)"
    by blast
  then show ?thesis
    by (simp add: handshake_fails_def return_failAuth_def failAuth_def Let_def
        auth_error_payload_def)
qed

lemma issue_challenge_minted:
  assumes "issue_challenge env s lookupPublicKey = Some (s1, Inr (agentID, pub, ch))"
  shows "ch_IssuedAtMS ch = clock env (ticks s)
       \<and> ch_ExpiresAtMS ch = ch_IssuedAtMS ch + challenge_ttl_ms env
       \<and> ticks s1 = Suc (ticks s)"
  using assms
  by (auto simp add: issue_challenge_def Let_def nowMS_def return_failAuth_def
      split: prod.splits sum.splits option.splits if_splits)

section \<open>Handshake: challenge binding and freshness\<close>

lemma WaitForAgentAuthentication_proof:
  assumes "issue_challenge env s lookupPublicKey = Some (s1, Inr (agentID, pub, ch))"
    and "readAuth env (conn s1) TypeAuthProof = (c2, Inr proofMsg)"
    and "unmarshalAndValidate env (json_proof env) (Payload proofMsg) ''auth_proof'' = Inr prf"
  shows "WaitForAgentAuthentication env s lookupPublicKey
         = check_proof env (s1\<lparr>conn := c2\<rparr>) agentID pub ch prf"
  using assms by (simp add: WaitForAgentAuthentication_def)

text \<open>
  C2, as amended. After the challenge has been sent and an \<open>auth_proof\<close> has been
  received and parsed, a proof whose agent id differs from the one of \<open>auth_begin\<close> fails
  the handshake with code \<open>protocol_error\<close> and message \<open>agent_id mismatch\<close>; a proof
  with that agent id whose challenge id, nonce or issue time differs from the challenge
  fails it with code \<open>replayed_challenge\<close>. In both cases the \<open>auth_error\<close> is sent
  best-effort and the connection is closed.
\<close>

theorem WaitForAgentAuthentication_binding:
  assumes ic: "issue_challenge env s lookupPublicKey = Some (s1, Inr (agentID, pub, ch))"
    and ra: "readAuth env (conn s1) TypeAuthProof = (c2, Inr proofMsg)"
    and um: "unmarshalAndValidate env (json_proof env) (Payload proofMsg) ''auth_proof'' = Inr prf"
    and mx: "0 < maxFramePayload c2"
  shows "(proof_AgentID prf \<noteq> agentID \<longrightarrow>
            handshake_fails env (s1\<lparr>conn := c2\<rparr>) ''protocol_error'' ''agent_id mismatch''
              (WaitForAgentAuthentication env s lookupPublicKey))
       \<and> (proof_AgentID prf = agentID \<and>
            (proof_ChallengeID prf \<noteq> ch_ChallengeID ch \<or> proof_Nonce prf \<noteq> ch_Nonce ch
             \<or> proof_IssuedAtMS prf \<noteq> ch_IssuedAtMS ch) \<longrightarrow>
            handshake_fails env (s1\<lparr>conn := c2\<rparr>) ''replayed_challenge'' []
              (WaitForAgentAuthentication env s lookupPublicKey))"
proof -
  have pos: "0 < maxFramePayload (conn (s1\<lparr>conn := c2\<rparr>))" using mx by simp
  note w = WaitForAgentAuthentication_proof [OF ic ra um]
  show ?thesis
    unfolding w
    using return_failAuth_fails [OF pos, of env "''protocol_error''" "''agent_id mismatch''"]
      return_failAuth_fails [OF pos, of env "''replayed_challenge''" "[]"]
    by (auto simp add: check_proof_def)
qed

text \<open>
  The \<open>int64\<close> arithmetic of the expiry read in the integers: the time to live in
  milliseconds is the truncated quotient, and the sum is exact unless it leaves the
  \<open>int64\<close> range.
\<close>

lemma sint_add_exact:
  fixes a b :: "64 word"
  assumes "- (2 ^ 63) \<le> sint a + sint b" and "sint a + sint b < 2 ^ 63"
  shows "sint (a + b) = sint a + sint b"
  using assms by (simp add: sint_word_add signed_take_bit_int_eq_self)

lemma sdiv_million_bounds:
  fixes x :: int
  assumes "- (2 ^ 63) \<le> x" and "x < 2 ^ 63"
  shows "- (2 ^ 63) \<le> x sdiv 1000000 \<and> x sdiv 1000000 < 2 ^ 63"
  using assms by (auto simp add: signed_divide_int_def sgn_if abs_if)

lemma sint_challenge_ttl_ms:
  "sint (challenge_ttl_ms env) = sint (challengeTTL env) sdiv 1000000"
proof -
  have "- (2 ^ 63) \<le> sint (challengeTTL env)" "sint (challengeTTL env) < 2 ^ 63"
    using sint_ge [of "challengeTTL env"] sint_lt [of "challengeTTL env"] by simp_all
  then show ?thesis
    unfolding challenge_ttl_ms_def
    using sdiv_million_bounds [of "sint (challengeTTL env)"]
    by (simp add: sint_sbintrunc' signed_take_bit_int_eq_self)
qed

text \<open>
  C8. The challenge is minted with the clock reading at that moment as its issue time
  and the issue time plus the time to live (in milliseconds, \<open>int64\<close> arithmetic) as its
  expiry; read in the integers, the expiry is the sum of the two whenever that sum is
  in the \<open>int64\<close> range. A proof whose bound fields match is rejected with code
  \<open>expired_challenge\<close> when the clock reading of the freshness check is later than the
  expiry, and the handshake succeeds only when that reading is not later.
\<close>

theorem WaitForAgentAuthentication_freshness:
  assumes ic: "issue_challenge env s lookupPublicKey = Some (s1, Inr (agentID, pub, ch))"
    and ra: "readAuth env (conn s1) TypeAuthProof = (c2, Inr proofMsg)"
    and um: "unmarshalAndValidate env (json_proof env) (Payload proofMsg) ''auth_proof'' = Inr prf"
    and mx: "0 < maxFramePayload c2"
    and bound: "proof_AgentID prf = agentID" "proof_ChallengeID prf = ch_ChallengeID ch"
      "proof_Nonce prf = ch_Nonce ch" "proof_IssuedAtMS prf = ch_IssuedAtMS ch"
  shows "ch_IssuedAtMS ch = clock env (ticks s)
       \<and> ch_ExpiresAtMS ch = ch_IssuedAtMS ch + challenge_ttl_ms env
       \<and> (- (2 ^ 63) \<le> sint (ch_IssuedAtMS ch) + sint (challengeTTL env) sdiv 1000000
            \<and> sint (ch_IssuedAtMS ch) + sint (challengeTTL env) sdiv 1000000 < 2 ^ 63 \<longrightarrow>
            sint (ch_ExpiresAtMS ch)
            = sint (ch_IssuedAtMS ch) + sint (challengeTTL env) sdiv 1000000)
       \<and> (sint (ch_ExpiresAtMS ch) < sint (clock env (ticks s1)) \<longrightarrow>
            handshake_fails env (s1\<lparr>conn := c2, ticks := Suc (ticks s1)\<rparr>) ''expired_challenge'' []
              (WaitForAgentAuthentication env s lookupPublicKey))
       \<and> ((\<exists>s'. WaitForAgentAuthentication env s lookupPublicKey = Some (s', None)) \<longrightarrow>
            sint (clock env (ticks s1)) \<le> sint (ch_ExpiresAtMS ch))"
proof -
  let ?s2 = "s1\<lparr>conn := c2, ticks := Suc (ticks s1)\<rparr>"
  have pos: "0 < maxFramePayload (conn ?s2)" using mx by simp
  note w = WaitForAgentAuthentication_proof [OF ic ra um]
  note minted = issue_challenge_minted [OF ic]
  have late: "sint (ch_ExpiresAtMS ch) < sint (clock env (ticks s1)) \<Longrightarrow>
      check_proof env (s1\<lparr>conn := c2\<rparr>) agentID pub ch prf
      = map_option (map_prod id Some) (return_failAuth env ?s2 ''expired_challenge'' [])"
    using bound by (simp add: check_proof_def nowMS_def)
  have a: "sint (ch_ExpiresAtMS ch) < sint (clock env (ticks s1)) \<longrightarrow>
            handshake_fails env ?s2 ''expired_challenge'' []
              (WaitForAgentAuthentication env s lookupPublicKey)"
    unfolding w using return_failAuth_fails [OF pos, of env "''expired_challenge''" "[]"]
    by (simp add: late)
  have b: "(\<exists>s'. WaitForAgentAuthentication env s lookupPublicKey = Some (s', None)) \<longrightarrow>
            sint (clock env (ticks s1)) \<le> sint (ch_ExpiresAtMS ch)"
  proof (intro impI, rule ccontr)
    assume ok: "\<exists>s'. WaitForAgentAuthentication env s lookupPublicKey = Some (s', None)"
      and "\<not> sint (clock env (ticks s1)) \<le> sint (ch_ExpiresAtMS ch)"
    then have "sint (ch_ExpiresAtMS ch) < sint (clock env (ticks s1))" by simp
    from late [OF this] ok show False
      unfolding w by (auto simp add: return_failAuth_def split: option.splits)
  qed
  have e: "- (2 ^ 63) \<le> sint (ch_IssuedAtMS ch) + sint (challengeTTL env) sdiv 1000000
            \<and> sint (ch_IssuedAtMS ch) + sint (challengeTTL env) sdiv 1000000 < 2 ^ 63 \<longrightarrow>
            sint (ch_ExpiresAtMS ch)
            = sint (ch_IssuedAtMS ch) + sint (challengeTTL env) sdiv 1000000"
    using minted sint_add_exact [of "ch_IssuedAtMS ch" "challenge_ttl_ms env"]
    by (simp add: sint_challenge_ttl_ms)
  from minted a b e show ?thesis by simp
qed


lemma example_issue_challenge:
  "clk 0 = 1000 \<Longrightarrow>
   issue_challenge (example_env prf clk) example_hs example_lookup
   = Some (example_challenged, Inr (''ab'', replicate 32 0, example_challenge))"
  by (simp add: issue_challenge_def example_env_def example_hs_def example_lookup_def
      example_challenged_def example_challenge_def readAuth_def readNextWithTimeout_def
      unmarshalAndValidate_def agentIDFromPublicKey_def hextable_def nowMS_def
      challenge_ttl_ms_def randomBytes_def mustMarshalJSON_def sendAuth_def Send_def
      sendWithFragmentation_def encodeFrameTo_def Write_def read_eval wire_eval
      signed_divide_int_def)

lemma example_readAuth:
  "readAuth (example_env prf clk) (conn example_challenged) TypeAuthProof
   = (example_proof_read,
      Inr \<lparr>Type = TypeAuthProof, StreamID = 0, Payload = [2], Kind = 0, Format = 0, Data = []\<rparr>)"
  by (simp add: example_env_def example_challenged_def example_proof_read_def readAuth_def
      readNextWithTimeout_def read_eval wire_eval)

lemma example_unmarshal:
  "unmarshalAndValidate (example_env prf clk) (json_proof (example_env prf clk)) [2] ''auth_proof''
   = Inr prf"
  by (simp add: example_env_def unmarshalAndValidate_def)


lemma example_auth_error_payload:
  "auth_error_payload (example_env prf clk) code message = bytes_of_string code"
  by (simp add: auth_error_payload_def mustMarshalJSON_def example_env_def bytes_of_string_def)

lemmas handshake_eval = handshake_fails_def example_auth_error_payload
  example_challenged_def example_proof_read_def example_proof_def
  example_challenge_def bytes_of_string_def sendAuth_def Send_def isAuthType_def
  sendWithFragmentation_def encodeFrameTo_def Write_def wire_eval Conn_Close_def Close_def

theorem WaitForAgentAuthentication_binding_witness:
  "WaitForAgentAuthentication
     (example_env (example_proof ''ab'' ''cid'' ''other'' 1000) (\<lambda>k. 1000 + word_of_nat k))
     example_hs example_lookup
   = Some (\<lparr>conn = \<lparr>nc = idle_transport
              \<lparr>wr_buf := [0x53, 0x42, 1, 0x02, 0, 3, 0, 0, 0, 0, 0, 0, 0, 0, 0, 0, 0, 1, 0x63,
                          0x53, 0x42, 1, 0x05, 0, 3, 0, 0, 0, 0, 0, 0, 0, 0, 0, 0, 0, 18]
                         @ bytes_of_string ''replayed_challenge'',
               closed := True\<rparr>,
             maxFramePayload = 64\<rparr>, ticks = 1\<rparr>,
           Some (Errorf ''auth failed: %s'' [''replayed_challenge'']))"
proof -
  let ?sent = "example_proof ''ab'' ''cid'' ''other'' 1000"
  let ?env = "example_env ?sent (\<lambda>k. 1000 + word_of_nat k)"
  have ic: "issue_challenge ?env example_hs example_lookup
      = Some (example_challenged, Inr (''ab'', replicate 32 0, example_challenge))"
    by (rule example_issue_challenge) simp
  have um: "unmarshalAndValidate ?env (json_proof ?env)
      (Payload \<lparr>Type = TypeAuthProof, StreamID = 0, Payload = [2], Kind = 0, Format = 0, Data = []\<rparr>)
      ''auth_proof'' = Inr ?sent"
    using example_unmarshal by simp
  have mx: "0 < maxFramePayload example_proof_read" by (simp add: example_proof_read_def)
  from WaitForAgentAuthentication_binding [OF ic example_readAuth um mx, THEN conjunct2]
  show ?thesis by (simp add: handshake_eval)
qed

theorem WaitForAgentAuthentication_agent_id_mismatch:
  "issue_challenge
     (example_env (example_proof ''zz'' ''cid'' ''nonce'' 1000) (\<lambda>k. 1000 + word_of_nat k))
     example_hs example_lookup
   = Some (example_challenged, Inr (''ab'', replicate 32 0, example_challenge))
   \<and> WaitForAgentAuthentication
     (example_env (example_proof ''zz'' ''cid'' ''nonce'' 1000) (\<lambda>k. 1000 + word_of_nat k))
     example_hs example_lookup
   = Some (\<lparr>conn = \<lparr>nc = idle_transport
              \<lparr>wr_buf := [0x53, 0x42, 1, 0x02, 0, 3, 0, 0, 0, 0, 0, 0, 0, 0, 0, 0, 0, 1, 0x63,
                          0x53, 0x42, 1, 0x05, 0, 3, 0, 0, 0, 0, 0, 0, 0, 0, 0, 0, 0, 14]
                         @ bytes_of_string ''protocol_error'',
               closed := True\<rparr>,
             maxFramePayload = 64\<rparr>, ticks = 1\<rparr>,
           Some (Errorf ''auth failed: %s (%s)'' [''protocol_error'', ''agent_id mismatch'']))"
proof -
  let ?sent = "example_proof ''zz'' ''cid'' ''nonce'' 1000"
  let ?env = "example_env ?sent (\<lambda>k. 1000 + word_of_nat k)"
  have ic: "issue_challenge ?env example_hs example_lookup
      = Some (example_challenged, Inr (''ab'', replicate 32 0, example_challenge))"
    by (rule example_issue_challenge) simp
  have um: "unmarshalAndValidate ?env (json_proof ?env)
      (Payload \<lparr>Type = TypeAuthProof, StreamID = 0, Payload = [2], Kind = 0, Format = 0, Data = []\<rparr>)
      ''auth_proof'' = Inr ?sent"
    using example_unmarshal by simp
  have "WaitForAgentAuthentication ?env example_hs example_lookup
      = check_proof ?env (example_challenged\<lparr>conn := example_proof_read\<rparr>) ''ab''
          (replicate 32 0) example_challenge ?sent"
    by (rule WaitForAgentAuthentication_proof [OF ic example_readAuth um])
  then show ?thesis
    using ic
    by (simp add: check_proof_def return_failAuth_def failAuth_def
        example_auth_error_payload [unfolded auth_error_payload_def] handshake_eval)
qed

theorem WaitForAgentAuthentication_freshness_witness:
  "WaitForAgentAuthentication
     (example_env (example_proof ''ab'' ''cid'' ''nonce'' 1000) (\<lambda>k. 1000 + 40000 * word_of_nat k))
     example_hs example_lookup
   = Some (\<lparr>conn = \<lparr>nc = idle_transport
              \<lparr>wr_buf := [0x53, 0x42, 1, 0x02, 0, 3, 0, 0, 0, 0, 0, 0, 0, 0, 0, 0, 0, 1, 0x63,
                          0x53, 0x42, 1, 0x05, 0, 3, 0, 0, 0, 0, 0, 0, 0, 0, 0, 0, 0, 17]
                         @ bytes_of_string ''expired_challenge'',
               closed := True\<rparr>,
             maxFramePayload = 64\<rparr>, ticks = 2\<rparr>,
           Some (Errorf ''auth failed: %s'' [''expired_challenge'']))
   \<and> ch_ExpiresAtMS example_challenge = 1000 + 30000"
proof -
  let ?sent = "example_proof ''ab'' ''cid'' ''nonce'' 1000"
  let ?env = "example_env ?sent (\<lambda>k. 1000 + 40000 * word_of_nat k)"
  have ic: "issue_challenge ?env example_hs example_lookup
      = Some (example_challenged, Inr (''ab'', replicate 32 0, example_challenge))"
    by (rule example_issue_challenge) simp
  have um: "unmarshalAndValidate ?env (json_proof ?env)
      (Payload \<lparr>Type = TypeAuthProof, StreamID = 0, Payload = [2], Kind = 0, Format = 0, Data = []\<rparr>)
      ''auth_proof'' = Inr ?sent"
    using example_unmarshal by simp
  have mx: "0 < maxFramePayload example_proof_read" by (simp add: example_proof_read_def)
  have b: "proof_AgentID ?sent = ''ab''" "proof_ChallengeID ?sent = ch_ChallengeID example_challenge"
    "proof_Nonce ?sent = ch_Nonce example_challenge"
    "proof_IssuedAtMS ?sent = ch_IssuedAtMS example_challenge"
    by (simp_all add: example_proof_def example_challenge_def)
  have late: "sint (ch_ExpiresAtMS example_challenge) < sint (clock ?env (ticks example_challenged))"
    by (simp add: example_challenge_def example_env_def example_challenged_def)
  from WaitForAgentAuthentication_freshness [OF ic example_readAuth um mx b] late
  show ?thesis by (simp add: handshake_eval)
qed

end
